theory Spec2Isabelle
  imports Main "HOL-Library.AList"
begin

section \<open>The multiplayer provider: data model\<close>

text \<open>
  A shallow embedding of the class \<^verbatim>\<open>MultiplayerProvider\<close>. The object is a record of
  its fields; every method and every event handler the class installs is a function
  from provider to provider. What the class does to the outside world (observer
  callbacks, frames sent on a data channel, posts on the BroadcastChannel, requests to
  the relay, calls on an RTCPeerConnection, timers) is appended to the field \<open>trace\<close>.

  JavaScript is single threaded, and a handler is modelled as running to completion:
  the outcome of each \<^verbatim>\<open>await\<close> inside it (a fetch response, a description, the ICE
  events seen while waiting) is an explicit argument. The closure \<^verbatim>\<open>startPolling\<close> is
  also given in steps, one for each stretch between two of its \<^verbatim>\<open>await\<close>s, and it is these
  steps that the events below run. Values produced outside the class
  (\<^verbatim>\<open>Date.now()\<close>, \<^verbatim>\<open>generatePlayerColor()\<close>, fresh object identities, where a merge
  of a Y.js update puts the entries it adds to the local document) are arguments as
  well. Console logging is left out.
\<close>

type_synonym peer_id = string

text \<open>Values of TypeScript type \<^verbatim>\<open>unknown\<close>, with JavaScript truthiness.\<close>

datatype js_value = JUndefined | JNull | JBool bool | JNum int | JStr string | JObj nat

fun truthy :: "js_value \<Rightarrow> bool" where
  "truthy JUndefined = False"
| "truthy JNull = False"
| "truthy (JBool b) = b"
| "truthy (JNum n) = (n \<noteq> 0)"
| "truthy (JStr s) = (s \<noteq> [])"
| "truthy (JObj _) = True"

record Player =
  p_id :: peer_id
  p_name :: string
  p_color :: nat
  p_joinedAt :: nat
  p_isHost :: bool

record GameActionInput =
  a_type :: string
  a_data :: js_value

record GameAction = GameActionInput +
  timestamp :: nat
  playerId :: peer_id

record AwarenessState =
  aw_player :: Player
  aw_fields :: "(string \<times> js_value) list"

text \<open>An RTCIceCandidateInit and an RTCSessionDescriptionInit are opaque.\<close>

datatype candidate = IceCandidate nat | NotACandidate

type_synonym description = nat

datatype signal_type = Offer | Answer | IceCandidateSignal

datatype signal_payload =
    Announce peer_id string
  | Bundle description "candidate list"
  | BareDescription signal_type description
  | CandidatePayload candidate
  | CandidatesPayload "candidate list"

record SignalMessage =
  sig_type :: signal_type
  sig_from :: peer_id
  sig_to :: "peer_id option"
  sig_payload :: signal_payload
  sig_timestamp :: nat

text \<open>
  \<^verbatim>\<open>Y.encodeStateAsUpdate(doc)\<close> and the incremental update handed to a
  \<^verbatim>\<open>doc.on('update')\<close> listener: the log entries and metadata entries they encode.
\<close>

record encoded_update =
  e_ops :: "GameAction list"
  e_meta :: "(string \<times> js_value) list"

text \<open>
  \<^verbatim>\<open>Y.applyUpdate\<close> is library code. A received update is represented by what its merge
  does to the local document: the entries it inserts into the operations array, each
  with the index at which the merge places it, and the metadata entries it writes (both
  empty when the update had been merged before); or \<open>Malformed\<close> when decoding throws, or
  \<open>Absent\<close> when the frame has no \<^verbatim>\<open>data\<close>. A merged entry need not land at the end: Y.js
  orders entries that different clients pushed concurrently by client id, so an entry
  of another client can be placed in front of entries the array already holds.
\<close>

datatype update_data =
  Absent | Malformed | Merge "(nat \<times> GameAction) list" "(string \<times> js_value) list"

datatype DataChannelMessage =
    Sync update_data
  | Update update_data
  | Awareness
  | StateSync js_value
  | StateRequest
  | UnknownType

record BroadcastMessage =
  b_msg :: DataChannelMessage
  b_from :: "peer_id option"
  b_peerId :: "peer_id option"

datatype out_message =
    OutSync encoded_update
  | OutUpdate encoded_update
  | OutAwareness AwarenessState
  | OutPlayer Player
  | OutStateSync js_value
  | OutStateRequest

datatype ready_state = Connecting | Open | Closing | Closed

datatype connection_state =
  CsNew | CsConnecting | CsConnected | CsDisconnected | CsFailed | CsClosed

datatype ice_gathering_state = IceNew | IceGathering | IceComplete

datatype pc_event = IceCandidateEvent "candidate option" | IceGatheringStateChange ice_gathering_state

text \<open>Everything the provider does to its environment.\<close>

datatype effect =
    OnConnectionChange bool nat
  | OnPlayersChange "Player list"
  | OnAction GameAction
  | OnStateReceived js_value
  | ChannelSend nat out_message
  | BroadcastPost out_message peer_id
  | BroadcastClose
  | SignalPost signal_type signal_payload "peer_id option"
  | PollRequest string
  | RoomLookup
  | Waited nat
  | SetInterval nat nat
  | ClearInterval nat
  | SetTimeout nat
  | NewPeerConnection nat
  | CreateDataChannel nat nat
  | SetLocalDescription nat description
  | SetRemoteDescription nat signal_payload
  | AddIceCandidate nat candidate
  | ClosePeerConnection nat
  | AwarenessDestroy
  | DocDestroy

record options =
  o_roomCode :: string
  o_cityName :: string
  o_playerName :: string
  o_isHost :: bool
  o_initialGameState :: js_value
  o_onConnectionChange :: bool
  o_onPlayersChange :: bool
  o_onAction :: bool
  o_onStateReceived :: bool

text \<open>
  The fields of the class, in the order of the source. A \<^verbatim>\<open>Map\<close> is an association list
  and a \<^verbatim>\<open>Set\<close> a list without duplicates, both in insertion order (the order of
  \<^verbatim>\<open>forEach\<close>). An RTCPeerConnection, an RTCDataChannel and an interval timer are
  identities (numbers); \<open>channelState\<close> holds each channel's \<^verbatim>\<open>readyState\<close>, \<open>timers\<close> the
  intervals not yet cleared, \<open>nextId\<close> the next fresh identity, \<open>localhost\<close> whether
  \<^verbatim>\<open>window.location.hostname === 'localhost'\<close>. The last group is the environment.
\<close>

record provider =
  operationsArray :: "GameAction list"
  metaMap :: "(string \<times> js_value) list"
  awareness :: "AwarenessState option"
  roomCode :: string
  peerId :: peer_id
  isHost :: bool
  player :: Player
  opts :: options
  lastAppliedIndex :: nat
  destroyed :: bool
  peerConnections :: "(peer_id \<times> nat) list"
  dataChannels :: "(peer_id \<times> nat) list"
  pollingInterval :: "nat option"
  lastSeenSignals :: string
  connectedPeers :: "peer_id list"
  initialGameState :: js_value
  pendingIceCandidates :: "(peer_id \<times> candidate list) list"
  outgoingIceCandidates :: "(peer_id \<times> candidate list) list"
  broadcastChannel :: bool
  useLocalFallback :: bool
  docUpdateListener :: bool
  channelState :: "(nat \<times> ready_state) list"
  timers :: "nat list"
  pendingTimeouts :: nat
  nextId :: nat
  localhost :: bool
  trace :: "effect list"

text \<open>Values read from outside during one handler run.\<close>

record env =
  now :: nat
  genColor :: "peer_id \<Rightarrow> nat"

section \<open>Helpers\<close>

definition emit :: "effect \<Rightarrow> provider \<Rightarrow> provider" where
  "emit e s = s\<lparr>trace := trace s @ [e]\<rparr>"

definition emits :: "effect list \<Rightarrow> provider \<Rightarrow> provider" where
  "emits es s = s\<lparr>trace := trace s @ es\<rparr>"

text \<open>\<^verbatim>\<open>Set.prototype.add\<close> and \<^verbatim>\<open>delete\<close>; \<^verbatim>\<open>map.get(k) || []\<close>.\<close>

definition set_add :: "'a \<Rightarrow> 'a list \<Rightarrow> 'a list" where
  "set_add x xs = (if x \<in> set xs then xs else xs @ [x])"

definition set_delete :: "'a \<Rightarrow> 'a list \<Rightarrow> 'a list" where
  "set_delete x xs = removeAll x xs"

definition getOrEmpty :: "('k \<times> 'v list) list \<Rightarrow> 'k \<Rightarrow> 'v list" where
  "getOrEmpty m k = (case map_of m k of None \<Rightarrow> [] | Some v \<Rightarrow> v)"

definition readyState :: "provider \<Rightarrow> nat \<Rightarrow> ready_state" where
  "readyState s ch = (case map_of (channelState s) ch of None \<Rightarrow> Connecting | Some r \<Rightarrow> r)"

section \<open>Construction, roster and observers\<close>

definition constructor :: "env \<Rightarrow> peer_id \<Rightarrow> bool \<Rightarrow> options \<Rightarrow> provider" where
  "constructor ev pid lh options =
    (let pl = \<lparr>p_id = pid, p_name = o_playerName options, p_color = genColor ev pid,
               p_joinedAt = now ev, p_isHost = o_isHost options\<rparr>
     in \<lparr>operationsArray = [],
         metaMap = (if o_isHost options
                    then [(''hostId'', JStr pid), (''createdAt'', JNum (int (now ev))),
                          (''cityName'', JStr (o_cityName options)),
                          (''roomCode'', JStr (o_roomCode options))]
                    else []),
         awareness = Some \<lparr>aw_player = pl, aw_fields = []\<rparr>,
         roomCode = o_roomCode options,
         peerId = pid,
         isHost = o_isHost options,
         player = pl,
         opts = options,
         lastAppliedIndex = 0,
         destroyed = False,
         peerConnections = [],
         dataChannels = [],
         pollingInterval = None,
         lastSeenSignals = [],
         connectedPeers = [],
         initialGameState = (if o_isHost options then o_initialGameState options else JNull),
         pendingIceCandidates = [],
         outgoingIceCandidates = [],
         broadcastChannel = lh,
         useLocalFallback = False,
         docUpdateListener = False,
         channelState = [],
         timers = [],
         pendingTimeouts = 0,
         nextId = 1,
         localhost = lh,
         trace = []\<rparr>)"

text \<open>The placeholder built for a connected peer; \<^verbatim>\<open>peerId.slice(-4)\<close> is the last four characters.\<close>

definition placeholder :: "env \<Rightarrow> peer_id \<Rightarrow> Player" where
  "placeholder ev p =
     \<lparr>p_id = p, p_name = ''Player '' @ drop (length p - 4) p, p_color = genColor ev p,
      p_joinedAt = now ev, p_isHost = False\<rparr>"

definition getPlayers :: "env \<Rightarrow> provider \<Rightarrow> Player list" where
  "getPlayers ev s = player s # map (placeholder ev) (connectedPeers s)"

definition getHost :: "env \<Rightarrow> provider \<Rightarrow> Player option" where
  "getHost ev s = find p_isHost (getPlayers ev s)"

definition amIHost :: "provider \<Rightarrow> bool" where
  "amIHost s = isHost s"

definition notifyPlayersChange :: "env \<Rightarrow> provider \<Rightarrow> provider" where
  "notifyPlayersChange ev s =
     (if \<not> o_onPlayersChange (opts s) then s
      else emit (OnPlayersChange (player s # map (placeholder ev) (connectedPeers s))) s)"

definition updateConnectionStatus :: "env \<Rightarrow> provider \<Rightarrow> provider" where
  "updateConnectionStatus ev s =
     (let peerCount = length (connectedPeers s) + 1;
          s1 = (if o_onConnectionChange (opts s) then emit (OnConnectionChange True peerCount) s
                else s)
      in notifyPlayersChange ev s1)"

text \<open>The observer of the operations array (set up in the constructor).\<close>

definition deliver :: "provider \<Rightarrow> GameAction \<Rightarrow> provider" where
  "deliver s op =
     (let isRemote = (playerId op \<noteq> peerId s)
      in if isRemote \<and> o_onAction (opts s) then emit (OnAction op) s else s)"

definition opsObserver :: "nat \<Rightarrow> provider \<Rightarrow> provider" where
  "opsObserver added s =
     (if added > 0 then
        let newOps = drop (lastAppliedIndex s) (operationsArray s);
            s1 = foldl deliver s newOps
        in s1\<lparr>lastAppliedIndex := length (operationsArray s1)\<rparr>
      else s)"

text \<open>The \<^verbatim>\<open>doc.on('update')\<close> listener that \<^verbatim>\<open>enableLocalFallback\<close> registers.\<close>

definition docUpdateHandler :: "bool \<Rightarrow> encoded_update \<Rightarrow> provider \<Rightarrow> provider" where
  "docUpdateHandler originRemote u s =
     (if \<not> docUpdateListener s then s
      else if originRemote then s
      else if \<not> useLocalFallback s then s
      else if broadcastChannel s then emit (BroadcastPost (OutUpdate u) (peerId s)) s
      else s)"

text \<open>
  Inserting entries one after the other, each at its index (an index of the length or
  more is the end of the array).
\<close>

fun insertAll :: "(nat \<times> 'a) list \<Rightarrow> 'a list \<Rightarrow> 'a list" where
  "insertAll [] xs = xs"
| "insertAll ((i, a) # rest) xs = insertAll rest (take i xs @ a # drop i xs)"

text \<open>
  One Y.js transaction that inserts \<open>inserts\<close> into the operations array and writes
  \<open>meta\<close> into the metadata map (a local push or set, or the merge of a received update):
  the array observer runs when entries were added, then the update listener.
\<close>

definition docChange ::
  "bool \<Rightarrow> (nat \<times> GameAction) list \<Rightarrow> (string \<times> js_value) list \<Rightarrow> provider \<Rightarrow> provider" where
  "docChange originRemote inserts meta s =
     (if inserts = [] \<and> meta = [] then s
      else
        let s1 = s\<lparr>operationsArray := insertAll inserts (operationsArray s),
                   metaMap := foldl (\<lambda>m (k, v). AList.update k v m) (metaMap s) meta\<rparr>;
            s2 = opsObserver (length inserts) s1
        in docUpdateHandler originRemote \<lparr>e_ops = map snd inserts, e_meta = meta\<rparr> s2)"

definition encodeStateAsUpdate :: "provider \<Rightarrow> encoded_update" where
  "encodeStateAsUpdate s = \<lparr>e_ops = operationsArray s, e_meta = metaMap s\<rparr>"

section \<open>Public methods\<close>

text \<open>\<^verbatim>\<open>operationsArray.push([fullAction])\<close> inserts at the end of the array.\<close>

definition dispatchAction :: "env \<Rightarrow> GameActionInput \<Rightarrow> provider \<Rightarrow> provider" where
  "dispatchAction ev action s =
     (if destroyed s then s
      else
        let fullAction = \<lparr>a_type = a_type action, a_data = a_data action,
                          timestamp = now ev, playerId = peerId s\<rparr>;
            s1 = docChange False [(length (operationsArray s), fullAction)] [] s;
            update = encodeStateAsUpdate s1;
            s2 = emits (map (\<lambda>(p, ch). ChannelSend ch (OutUpdate update))
                          (filter (\<lambda>(p, ch). readyState s1 ch = Open) (dataChannels s1))) s1
        in if useLocalFallback s2 \<and> broadcastChannel s2
           then emit (BroadcastPost (OutUpdate update) (peerId s2)) s2
           else s2)"

text \<open>
  \<^verbatim>\<open>{...currentState, ...update, player: this.player}\<close>: the key \<^verbatim>\<open>player\<close> is the self
  player whatever the update says; \<open>aw_fields\<close> holds the other keys. The awareness
  library decides when a changed local state makes it fire \<^verbatim>\<open>'change'\<close>; the listener the
  constructor registers is \<open>notifyPlayersChange\<close> (the event \<open>AwarenessChange\<close> below).
\<close>

definition updateAwareness :: "(string \<times> js_value) list \<Rightarrow> provider \<Rightarrow> provider" where
  "updateAwareness update s =
     (if destroyed s then s
      else
        let currentFields = (case awareness s of None \<Rightarrow> [] | Some a \<Rightarrow> aw_fields a);
            others = filter (\<lambda>(k, v). k \<noteq> ''player'') update
        in s\<lparr>awareness :=
               Some \<lparr>aw_player = player s,
                     aw_fields = foldl (\<lambda>m (k, v). AList.update k v m) currentFields others\<rparr>\<rparr>)"

text \<open>
  \<^verbatim>\<open>operationsArray.slice(index)\<close> for an index that is a natural number, as the watermark
  is; what \<^verbatim>\<open>Y.Array.slice\<close> returns for a negative index is left out.
\<close>

definition getOperationsSince :: "nat \<Rightarrow> provider \<Rightarrow> GameAction list" where
  "getOperationsSince index s = drop index (operationsArray s)"

definition getAllOperations :: "provider \<Rightarrow> GameAction list" where
  "getAllOperations s = operationsArray s"

definition getMeta :: "string \<Rightarrow> provider \<Rightarrow> js_value option" where
  "getMeta key s = map_of (metaMap s) key"

definition setMeta :: "string \<Rightarrow> js_value \<Rightarrow> provider \<Rightarrow> provider" where
  "setMeta key v s = docChange False [] [(key, v)] s"

definition updateGameState :: "js_value \<Rightarrow> provider \<Rightarrow> provider" where
  "updateGameState state s = s\<lparr>initialGameState := state\<rparr>"

text \<open>
  \<^verbatim>\<open>awareness.destroy()\<close> sets the local awareness state to null, on which the library
  fires \<^verbatim>\<open>'change'\<close>: the listener \<open>notifyPlayersChange\<close> runs inside \<open>destroy\<close>, before
  \<^verbatim>\<open>doc.destroy()\<close>.
\<close>

definition destroy :: "env \<Rightarrow> provider \<Rightarrow> provider" where
  "destroy ev s =
     (if destroyed s then s
      else
        let s1 = s\<lparr>destroyed := True\<rparr>;
            s2 = (case pollingInterval s1 of
                    None \<Rightarrow> s1
                  | Some i \<Rightarrow> (emit (ClearInterval i) s1)
                               \<lparr>timers := removeAll i (timers s1), pollingInterval := None\<rparr>);
            s3 = (emits (map (\<lambda>(p, pc). ClosePeerConnection pc) (peerConnections s2)) s2)
                   \<lparr>peerConnections := [], dataChannels := []\<rparr>;
            s4 = (if broadcastChannel s3 then (emit BroadcastClose s3)\<lparr>broadcastChannel := False\<rparr>
                  else s3);
            s5 = notifyPlayersChange ev ((emit AwarenessDestroy s4)\<lparr>awareness := None\<rparr>)
        in emit DocDestroy s5)"

section \<open>Loopback fallback\<close>

definition enableLocalFallback :: "env \<Rightarrow> provider \<Rightarrow> provider" where
  "enableLocalFallback ev s =
     (if useLocalFallback s then s
      else if \<not> broadcastChannel s then s
      else
        let s1 = s\<lparr>useLocalFallback := True\<rparr>;
            s2 = emit (BroadcastPost (OutPlayer (player s1)) (peerId s1)) s1;
            s3 = (if \<not> isHost s2
                  then (emit (SetTimeout 100) s2)\<lparr>pendingTimeouts := pendingTimeouts s2 + 1\<rparr>
                  else s2);
            s4 = s3\<lparr>docUpdateListener := True\<rparr>
        in updateConnectionStatus ev s4)"

text \<open>The callback of the 100 ms timeout that \<open>enableLocalFallback\<close> sets for a guest.\<close>

definition onFallbackTimeout :: "provider \<Rightarrow> provider" where
  "onFallbackTimeout s =
     (if pendingTimeouts s = 0 then s
      else
        let s1 = s\<lparr>pendingTimeouts := pendingTimeouts s - 1\<rparr>
        in if broadcastChannel s1 then emit (BroadcastPost OutStateRequest (peerId s1)) s1 else s1)"

definition applyUpdate :: "bool \<Rightarrow> update_data \<Rightarrow> provider \<Rightarrow> provider" where
  "applyUpdate originRemote d s =
     (case d of Merge ops meta \<Rightarrow> docChange originRemote ops meta s | _ \<Rightarrow> s)"

definition handleBroadcastMessage :: "BroadcastMessage \<Rightarrow> provider \<Rightarrow> provider" where
  "handleBroadcastMessage msg s =
     (case b_msg msg of
        StateRequest \<Rightarrow>
          if isHost s \<and> truthy (initialGameState s)
          then (if broadcastChannel s
                then emit (BroadcastPost (OutStateSync (initialGameState s)) (peerId s)) s
                else s)
          else s
      | StateSync v \<Rightarrow> if o_onStateReceived (opts s) then emit (OnStateReceived v) s else s
      | Sync d \<Rightarrow> (if d = Absent then s else applyUpdate True d s)
      | Update d \<Rightarrow> (if d = Absent then s else applyUpdate True d s)
      | _ \<Rightarrow> s)"

definition str_truthy :: "string option \<Rightarrow> bool" where
  "str_truthy x = (case x of None \<Rightarrow> False | Some v \<Rightarrow> v \<noteq> [])"

definition isStateMessage :: "DataChannelMessage \<Rightarrow> bool" where
  "isStateMessage m = (case m of StateSync _ \<Rightarrow> True | StateRequest \<Rightarrow> True | _ \<Rightarrow> False)"

text \<open>The \<^verbatim>\<open>onmessage\<close> handler of the BroadcastChannel (\<open>setupLocalFallback\<close>).\<close>

definition broadcastOnMessage :: "env \<Rightarrow> BroadcastMessage \<Rightarrow> provider \<Rightarrow> provider" where
  "broadcastOnMessage ev msg s =
     (if b_from msg = Some (peerId s) \<or> b_peerId msg = Some (peerId s) then s
      else
        let s1 =
          (if b_msg msg = Awareness then
             (case (if str_truthy (b_from msg) then b_from msg else b_peerId msg) of
                None \<Rightarrow> s
              | Some remotePeerId \<Rightarrow>
                  if remotePeerId \<noteq> [] \<and> remotePeerId \<notin> set (connectedPeers s) then
                    let s2 = updateConnectionStatus ev
                               (s\<lparr>connectedPeers := set_add remotePeerId (connectedPeers s)\<rparr>)
                    in if useLocalFallback s2 \<and> broadcastChannel s2
                       then emit (BroadcastPost (OutPlayer (player s2)) (peerId s2)) s2
                       else s2
                  else s)
           else s)
        in if isStateMessage (b_msg msg) \<or> useLocalFallback s1
           then handleBroadcastMessage msg s1
           else s1)"

section \<open>Relay polling\<close>

text \<open>
  \<open>pollSignals\<close> up to its fetch; the response is handled by \<open>onPollResponse\<close> below. Its
  counters \<^verbatim>\<open>pollCount\<close> and \<^verbatim>\<open>roomReady\<close> are written and never read.
\<close>

definition pollSignals :: "provider \<Rightarrow> provider" where
  "pollSignals s = (if destroyed s then s else emit (PollRequest (lastSeenSignals s)) s)"

datatype lookup_result = LookupOk | LookupNotOk | LookupThrows

text \<open>
  First \<open>startSignalPolling\<close> with its closure \<^verbatim>\<open>startPolling\<close> run to the end in one piece,
  as it goes when no other handler runs in between. The host's loop
  \<^verbatim>\<open>for (let i = 0; i < 6; i++)\<close> over the room lookups, \<open>res i\<close> being the outcome of the
  lookup of round \<open>i\<close>: the requests and waits it makes, and whether it ends without an
  exception.
\<close>

function roomChecks :: "nat \<Rightarrow> (nat \<Rightarrow> lookup_result) \<Rightarrow> effect list \<times> bool" where
  "roomChecks i res =
     (if i < 6 then
        (case res i of
           LookupOk \<Rightarrow> ([RoomLookup], True)
         | LookupThrows \<Rightarrow> ([RoomLookup], False)
         | LookupNotOk \<Rightarrow>
             (let (es, ok) = roomChecks (i + 1) res in (RoomLookup # Waited 500 # es, ok)))
      else ([], True))"
  by pat_completeness auto
termination
  by (relation "measure (\<lambda>(i, res). 6 - i)") auto

declare roomChecks.simps [simp del]

definition startSignalPolling :: "(nat \<Rightarrow> lookup_result) \<Rightarrow> provider \<Rightarrow> provider" where
  "startSignalPolling res s =
     (case pollingInterval s of
        Some _ \<Rightarrow> s
      | None \<Rightarrow>
          let (es, ok) = (if isHost s then roomChecks 0 res else ([], True));
              s1 = emits es s
          in if \<not> ok then s1
             else
               let i = nextId s1;
                   s2 = (emit (SetInterval i 2000) s1)
                          \<lparr>pollingInterval := Some i, timers := timers s1 @ [i], nextId := i + 1\<rparr>
               in pollSignals s2)"

definition announcePresence :: "provider \<Rightarrow> provider" where
  "announcePresence s =
     emit (SignalPost Offer (Announce (peerId s) (p_name (player s))) None) s"

definition sendSignal ::
  "signal_type \<Rightarrow> signal_payload \<Rightarrow> peer_id option \<Rightarrow> provider \<Rightarrow> provider" where
  "sendSignal ty payload to s = emit (SignalPost ty payload to) s"

definition connect :: "env \<Rightarrow> (nat \<Rightarrow> lookup_result) \<Rightarrow> provider \<Rightarrow> provider" where
  "connect ev res s =
     (if destroyed s then s
      else
        let s1 = (if o_onConnectionChange (opts s) then emit (OnConnectionChange True 1) s else s);
            s2 = notifyPlayersChange ev s1
        in if localhost s2 then enableLocalFallback ev s2
           else
             let s3 = startSignalPolling res s2
             in if \<not> isHost s3 then announcePresence s3 else s3)"

text \<open>
  The same in steps. \<^verbatim>\<open>startPolling\<close> is asynchronous: a host's \<^verbatim>\<open>connect()\<close> returns as soon
  as the first room lookup is issued, and \<^verbatim>\<open>this.pollingInterval\<close> is assigned only by the
  closure's last two statements, so that other handlers (a second \<^verbatim>\<open>connect()\<close>,
  \<^verbatim>\<open>destroy()\<close>) run while the field is still null. The stretches between the suspension
  points of the closure: its call up to the first \<^verbatim>\<open>await\<close>; its resumption when the lookup
  has returned \<open>r\<close> (a lookup that is not ok starts the wait of 500 ms, one that throws
  ends the closure); its resumption when the wait of round \<open>i\<close> is over; and its last two
  statements. A guest's closure has no \<^verbatim>\<open>await\<close>.
\<close>

definition startPollingEnd :: "provider \<Rightarrow> provider" where
  "startPollingEnd s =
     (let i = nextId s;
          s1 = (emit (SetInterval i 2000) s)
                 \<lparr>pollingInterval := Some i, timers := timers s @ [i], nextId := i + 1\<rparr>
      in pollSignals s1)"

definition startPollingCall :: "provider \<Rightarrow> provider" where
  "startPollingCall s = (if isHost s then emit RoomLookup s else startPollingEnd s)"

definition afterRoomLookup :: "lookup_result \<Rightarrow> provider \<Rightarrow> provider" where
  "afterRoomLookup r s =
     (case r of LookupOk \<Rightarrow> startPollingEnd s | LookupNotOk \<Rightarrow> s | LookupThrows \<Rightarrow> s)"

definition afterRetryWait :: "nat \<Rightarrow> provider \<Rightarrow> provider" where
  "afterRetryWait i s =
     (let s1 = emit (Waited 500) s
      in if i + 1 < 6 then emit RoomLookup s1 else startPollingEnd s1)"

definition startSignalPollingCall :: "provider \<Rightarrow> provider" where
  "startSignalPollingCall s =
     (case pollingInterval s of Some _ \<Rightarrow> s | None \<Rightarrow> startPollingCall s)"

definition connectCall :: "env \<Rightarrow> provider \<Rightarrow> provider" where
  "connectCall ev s =
     (if destroyed s then s
      else
        let s1 = (if o_onConnectionChange (opts s) then emit (OnConnectionChange True 1) s else s);
            s2 = notifyPlayersChange ev s1
        in if localhost s2 then enableLocalFallback ev s2
           else
             let s3 = startSignalPollingCall s2
             in if \<not> isHost s3 then announcePresence s3 else s3)"

definition stopPollingIfConnected :: "provider \<Rightarrow> provider" where
  "stopPollingIfConnected s =
     (if length (connectedPeers s) > 0 then
        (case pollingInterval s of
           Some i \<Rightarrow> (emit (ClearInterval i) s)
                       \<lparr>timers := removeAll i (timers s), pollingInterval := None\<rparr>
         | None \<Rightarrow> s)
      else s)"

section \<open>Peer connections\<close>

text \<open>What the WebRTC calls awaited during one negotiation turn out to do.\<close>

record negotiation =
  localDescription :: "description option"
  remoteDescriptionOk :: bool
  gatheringState :: ice_gathering_state
  gatherEvents :: "(nat \<times> pc_event) list"

text \<open>
  The wait for ICE gathering: \<open>gatherEvents\<close> are the connection's events in order of
  occurrence, each with the milliseconds since the wait began. The wait ends at the
  first change to \<^verbatim>\<open>'complete'\<close> or when the 3000 ms timer fires; the result is the events
  seen by then and the time waited.
\<close>

fun gatherUntil :: "(nat \<times> pc_event) list \<Rightarrow> pc_event list \<times> nat" where
  "gatherUntil [] = ([], 3000)"
| "gatherUntil ((t, e) # rest) =
     (if t \<ge> 3000 then ([], 3000)
      else if e = IceGatheringStateChange IceComplete then ([e], t)
      else (let (es, d) = gatherUntil rest in (e # es, d)))"

definition waitForIceGathering ::
  "ice_gathering_state \<Rightarrow> (nat \<times> pc_event) list \<Rightarrow> pc_event list \<times> nat" where
  "waitForIceGathering st evs = (if st = IceComplete then ([], 0) else gatherUntil evs)"

definition onicecandidate :: "peer_id \<Rightarrow> candidate option \<Rightarrow> provider \<Rightarrow> provider" where
  "onicecandidate remotePeerId c s =
     (case c of
        None \<Rightarrow> s
      | Some cand \<Rightarrow>
          let pending = getOrEmpty (outgoingIceCandidates s) remotePeerId
          in s\<lparr>outgoingIceCandidates :=
                 AList.update remotePeerId (pending @ [cand]) (outgoingIceCandidates s)\<rparr>)"

definition onPcEvent :: "peer_id \<Rightarrow> provider \<Rightarrow> pc_event \<Rightarrow> provider" where
  "onPcEvent remotePeerId s e =
     (case e of IceCandidateEvent c \<Rightarrow> onicecandidate remotePeerId c s
              | IceGatheringStateChange _ \<Rightarrow> s)"

definition awaitIceGathering :: "negotiation \<Rightarrow> peer_id \<Rightarrow> provider \<Rightarrow> provider" where
  "awaitIceGathering ng remotePeerId s =
     (let (evs, d) = waitForIceGathering (gatheringState ng) (gatherEvents ng)
      in emit (Waited d) (foldl (onPcEvent remotePeerId) s evs))"

definition setupDataChannel :: "nat \<Rightarrow> peer_id \<Rightarrow> provider \<Rightarrow> provider" where
  "setupDataChannel channel remotePeerId s =
     s\<lparr>dataChannels := AList.update remotePeerId channel (dataChannels s)\<rparr>"

text \<open>The result is the connection, or \<open>None\<close> when an awaited call rejected.\<close>

definition createPeerConnection ::
  "negotiation \<Rightarrow> peer_id \<Rightarrow> bool \<Rightarrow> provider \<Rightarrow> nat option \<times> provider" where
  "createPeerConnection ng remotePeerId createOffer s =
     (case map_of (peerConnections s) remotePeerId of
        Some pc \<Rightarrow> (Some pc, s)
      | None \<Rightarrow>
          let pc = nextId s;
              s1 = (emit (NewPeerConnection pc) s)
                     \<lparr>nextId := pc + 1,
                      peerConnections := AList.update remotePeerId pc (peerConnections s)\<rparr>
          in if \<not> createOffer then (Some pc, s1)
             else
               let channel = nextId s1;
                   s2 = setupDataChannel channel remotePeerId
                          ((emit (CreateDataChannel pc channel) s1)\<lparr>nextId := channel + 1\<rparr>)
               in (case localDescription ng of
                     None \<Rightarrow> (None, s2)
                   | Some offer \<Rightarrow>
                       let s3 = emit (SetLocalDescription pc offer) s2;
                           s4 = awaitIceGathering ng remotePeerId s3;
                           candidates = getOrEmpty (outgoingIceCandidates s4) remotePeerId;
                           s5 = sendSignal Offer (Bundle offer candidates) (Some remotePeerId) s4
                       in (Some pc,
                           s5\<lparr>outgoingIceCandidates :=
                                AList.delete remotePeerId (outgoingIceCandidates s5)\<rparr>)))"

text \<open>\<^verbatim>\<open>payload.candidates || []\<close>, and the candidate list of a legacy message.\<close>

definition payloadCandidates :: "signal_payload \<Rightarrow> candidate list" where
  "payloadCandidates p =
     (case p of Bundle _ cs \<Rightarrow> cs | CandidatesPayload cs \<Rightarrow> cs | _ \<Rightarrow> [])"

definition legacyCandidates :: "signal_payload \<Rightarrow> candidate list" where
  "legacyCandidates p =
     (case p of Bundle _ cs \<Rightarrow> cs | CandidatesPayload cs \<Rightarrow> cs
              | CandidatePayload c \<Rightarrow> [c] | _ \<Rightarrow> [NotACandidate])"

definition handleOffer :: "negotiation \<Rightarrow> SignalMessage \<Rightarrow> provider \<Rightarrow> provider" where
  "handleOffer ng signal s =
     (let offerCandidates = payloadCandidates (sig_payload signal)
      in case createPeerConnection ng (sig_from signal) False s of
           (None, s1) \<Rightarrow> s1
         | (Some pc, s1) \<Rightarrow>
             let s2 = emit (SetRemoteDescription pc (sig_payload signal)) s1
             in if \<not> remoteDescriptionOk ng then s2
                else
                  let s3 = emits (map (AddIceCandidate pc) offerCandidates) s2;
                      bufferedCandidates = getOrEmpty (pendingIceCandidates s3) (sig_from signal);
                      s4 = (if length bufferedCandidates > 0
                            then (emits (map (AddIceCandidate pc) bufferedCandidates) s3)
                                   \<lparr>pendingIceCandidates :=
                                      AList.delete (sig_from signal) (pendingIceCandidates s3)\<rparr>
                            else s3)
                  in (case localDescription ng of
                        None \<Rightarrow> s4
                      | Some answer \<Rightarrow>
                          let s5 = emit (SetLocalDescription pc answer) s4;
                              s6 = awaitIceGathering ng (sig_from signal) s5;
                              candidates = getOrEmpty (outgoingIceCandidates s6) (sig_from signal);
                              s7 = sendSignal Answer (Bundle answer candidates)
                                     (Some (sig_from signal)) s6
                          in s7\<lparr>outgoingIceCandidates :=
                                  AList.delete (sig_from signal) (outgoingIceCandidates s7)\<rparr>))"

text \<open>The boolean is False when the handler ends with an exception.\<close>

definition handleAnswer :: "negotiation \<Rightarrow> SignalMessage \<Rightarrow> provider \<Rightarrow> bool \<times> provider" where
  "handleAnswer ng signal s =
     (case map_of (peerConnections s) (sig_from signal) of
        Some pc \<Rightarrow>
          let answerCandidates = payloadCandidates (sig_payload signal);
              s1 = emit (SetRemoteDescription pc (sig_payload signal)) s
          in if \<not> remoteDescriptionOk ng then (False, s1)
             else (True, emits (map (AddIceCandidate pc) answerCandidates) s1)
      | None \<Rightarrow> (True, s))"

definition handleLegacyIceCandidate :: "SignalMessage \<Rightarrow> provider \<Rightarrow> provider" where
  "handleLegacyIceCandidate signal s =
     (let candidates = legacyCandidates (sig_payload signal)
      in case map_of (peerConnections s) (sig_from signal) of
           Some pc \<Rightarrow> emits (map (AddIceCandidate pc) candidates) s
         | None \<Rightarrow>
             let pending = getOrEmpty (pendingIceCandidates s) (sig_from signal)
             in s\<lparr>pendingIceCandidates :=
                    AList.update (sig_from signal) (pending @ candidates)
                      (pendingIceCandidates s)\<rparr>)"

definition isAnnounce :: "signal_payload \<Rightarrow> bool" where
  "isAnnounce p = (case p of Announce _ _ \<Rightarrow> True | _ \<Rightarrow> False)"

text \<open>\<^verbatim>\<open>payloadType === 'offer' || hasSdpPayload\<close>: the payload has a field \<^verbatim>\<open>sdp\<close>.\<close>

definition hasSdpPayload :: "signal_payload \<Rightarrow> bool" where
  "hasSdpPayload p = (case p of Bundle _ _ \<Rightarrow> True | BareDescription _ _ \<Rightarrow> True | _ \<Rightarrow> False)"

definition handleSignal :: "negotiation \<Rightarrow> SignalMessage \<Rightarrow> provider \<Rightarrow> bool \<times> provider" where
  "handleSignal ng signal s =
     (if sig_type signal = Offer \<and> isAnnounce (sig_payload signal) then
        (if isHost s
         then (case createPeerConnection ng (sig_from signal) True s of
                 (r, s1) \<Rightarrow> (r \<noteq> None, s1))
         else (True, s))
      else if sig_type signal = Offer \<and> hasSdpPayload (sig_payload signal)
        then (True, handleOffer ng signal s)
      else if sig_type signal = Answer then handleAnswer ng signal s
      else if sig_type signal = IceCandidateSignal then (True, handleLegacyIceCandidate signal s)
      else (True, s))"

datatype poll_response =
    PollOk "(SignalMessage \<times> negotiation) list" "string option"
  | PollNotFound
  | PollOtherStatus
  | PollFailed

text \<open>The loop over the signals of one response; an exception ends it (the \<^verbatim>\<open>catch\<close> of \<open>pollSignals\<close>).\<close>

fun handleSignals :: "(SignalMessage \<times> negotiation) list \<Rightarrow> provider \<Rightarrow> provider" where
  "handleSignals [] s = s"
| "handleSignals ((signal, ng) # rest) s =
     (case handleSignal ng signal s of
        (True, s1) \<Rightarrow> handleSignals rest s1
      | (False, s1) \<Rightarrow> s1)"

definition onPollResponse :: "poll_response \<Rightarrow> provider \<Rightarrow> provider" where
  "onPollResponse r s =
     (case r of
        PollOk signals lastSeen \<Rightarrow>
          handleSignals signals
            (s\<lparr>lastSeenSignals := (case lastSeen of None \<Rightarrow> [] | Some l \<Rightarrow> l)\<rparr>)
      | _ \<Rightarrow> s)"

text \<open>The \<^verbatim>\<open>onconnectionstatechange\<close> handler of the connection created for \<open>remotePeerId\<close>.\<close>

definition onconnectionstatechange ::
  "env \<Rightarrow> peer_id \<Rightarrow> connection_state \<Rightarrow> provider \<Rightarrow> provider" where
  "onconnectionstatechange ev remotePeerId st s =
     (if st = CsConnected then
        stopPollingIfConnected
          (updateConnectionStatus ev
             (s\<lparr>connectedPeers := set_add remotePeerId (connectedPeers s)\<rparr>))
      else if st = CsDisconnected \<or> st = CsFailed then
        let s1 = s\<lparr>connectedPeers := set_delete remotePeerId (connectedPeers s),
                   peerConnections := AList.delete remotePeerId (peerConnections s),
                   dataChannels := AList.delete remotePeerId (dataChannels s)\<rparr>;
            s2 = updateConnectionStatus ev s1
        in if broadcastChannel s2 \<and> \<not> useLocalFallback s2 then enableLocalFallback ev s2 else s2
      else s)"

section \<open>Data channels\<close>

definition syncDocument :: "peer_id \<Rightarrow> provider \<Rightarrow> provider" where
  "syncDocument remotePeerId s =
     (let state = encodeStateAsUpdate s
      in case map_of (dataChannels s) remotePeerId of
           None \<Rightarrow> s
         | Some channel \<Rightarrow>
             if readyState s channel = Open then
               let s1 = emit (ChannelSend channel (OutSync state)) s
               in (case awareness s1 of
                     None \<Rightarrow> s1
                   | Some awarenessState \<Rightarrow>
                       emit (ChannelSend channel (OutAwareness awarenessState)) s1)
             else s)"

text \<open>The handlers \<open>setupDataChannel\<close> installs on \<open>channel\<close>; the browser has set its \<^verbatim>\<open>readyState\<close>.\<close>

definition onopen :: "peer_id \<Rightarrow> nat \<Rightarrow> provider \<Rightarrow> provider" where
  "onopen remotePeerId channel s =
     (let s1 = syncDocument remotePeerId
                 (s\<lparr>channelState := AList.update channel Open (channelState s)\<rparr>)
      in if \<not> isHost s1 then emit (ChannelSend channel OutStateRequest) s1 else s1)"

definition onclose :: "peer_id \<Rightarrow> nat \<Rightarrow> provider \<Rightarrow> provider" where
  "onclose remotePeerId channel s =
     s\<lparr>channelState := AList.update channel Closed (channelState s),
       dataChannels := AList.delete remotePeerId (dataChannels s)\<rparr>"

text \<open>The message is \<open>None\<close> when \<^verbatim>\<open>JSON.parse\<close> throws.\<close>

definition handleDataChannelMessage ::
  "env \<Rightarrow> DataChannelMessage option \<Rightarrow> peer_id \<Rightarrow> provider \<Rightarrow> provider" where
  "handleDataChannelMessage ev message remotePeerId s =
     (case message of
        None \<Rightarrow> s
      | Some (Sync d) \<Rightarrow> applyUpdate False d s
      | Some (Update d) \<Rightarrow> applyUpdate False d s
      | Some Awareness \<Rightarrow> notifyPlayersChange ev s
      | Some StateRequest \<Rightarrow>
          if isHost s \<and> truthy (initialGameState s) then
            (case map_of (dataChannels s) remotePeerId of
               None \<Rightarrow> s
             | Some channel \<Rightarrow>
                 if readyState s channel = Open
                 then emit (ChannelSend channel (OutStateSync (initialGameState s))) s
                 else s)
          else s
      | Some (StateSync v) \<Rightarrow>
          if o_onStateReceived (opts s) \<and> truthy v then emit (OnStateReceived v) s else s
      | Some UnknownType \<Rightarrow> s)"

section \<open>Events\<close>

text \<open>
  What can happen to a provider: a call of a public method, the resumption of
  \<^verbatim>\<open>startPolling\<close> at one of its \<^verbatim>\<open>await\<close>s, or an event for which the class has installed a
  handler. An interval fires only while it is not cleared, a BroadcastChannel delivers
  only while it exists and is not closed, and the awareness object fires \<^verbatim>\<open>'change'\<close> only
  until \<open>destroy\<close> has destroyed it. The resumptions are not counted: in a run of the code
  each of them answers a lookup or a wait that a call of \<^verbatim>\<open>startPolling\<close> has pending, and
  \<open>RetryWaitDone i\<close> ends the wait of that call's round \<open>i\<close>.
\<close>

datatype event =
    Connect
  | RoomLookupDone lookup_result
  | RetryWaitDone nat
  | DispatchAction GameActionInput
  | UpdateAwareness "(string \<times> js_value) list"
  | SetMeta string js_value
  | UpdateGameState js_value
  | Destroy
  | AwarenessChange
  | IntervalTick nat
  | PollResponse poll_response
  | ConnectionStateChange peer_id connection_state
  | IceCandidateFound peer_id "candidate option"
  | DataChannelReceived peer_id nat
  | ChannelOpened peer_id nat
  | ChannelMessage peer_id "DataChannelMessage option"
  | ChannelClosed peer_id nat
  | ChannelStateChanged nat ready_state
  | BroadcastReceived BroadcastMessage
  | TimeoutFired

fun step :: "env \<Rightarrow> event \<Rightarrow> provider \<Rightarrow> provider" where
  "step ev Connect s = connectCall ev s"
| "step ev (RoomLookupDone r) s = afterRoomLookup r s"
| "step ev (RetryWaitDone i) s = afterRetryWait i s"
| "step ev (DispatchAction action) s = dispatchAction ev action s"
| "step ev (UpdateAwareness update) s = updateAwareness update s"
| "step ev (SetMeta key v) s = setMeta key v s"
| "step ev (UpdateGameState state) s = updateGameState state s"
| "step ev Destroy s = destroy ev s"
| "step ev AwarenessChange s = (if destroyed s then s else notifyPlayersChange ev s)"
| "step ev (IntervalTick i) s = (if i \<in> set (timers s) then pollSignals s else s)"
| "step ev (PollResponse r) s = onPollResponse r s"
| "step ev (ConnectionStateChange p st) s = onconnectionstatechange ev p st s"
| "step ev (IceCandidateFound p c) s = onicecandidate p c s"
| "step ev (DataChannelReceived p channel) s = setupDataChannel channel p s"
| "step ev (ChannelOpened p channel) s = onopen p channel s"
| "step ev (ChannelMessage p message) s = handleDataChannelMessage ev message p s"
| "step ev (ChannelClosed p channel) s = onclose p channel s"
| "step ev (ChannelStateChanged channel st) s =
     s\<lparr>channelState := AList.update channel st (channelState s)\<rparr>"
| "step ev (BroadcastReceived msg) s =
     (if broadcastChannel s then broadcastOnMessage ev msg s else s)"
| "step ev TimeoutFired s = onFallbackTimeout s"

fun run :: "(env \<times> event) list \<Rightarrow> provider \<Rightarrow> provider" where
  "run [] s = s"
| "run ((ev, e) # es) s = run es (step ev e s)"

text \<open>
  The resumptions that follow a host's call of \<open>connect\<close> when the lookup of round \<open>i\<close>
  returns \<open>res i\<close>, for at most \<open>n\<close> rounds from round \<open>i\<close> on.
\<close>

fun resumptions :: "nat \<Rightarrow> nat \<Rightarrow> (nat \<Rightarrow> lookup_result) \<Rightarrow> event list" where
  "resumptions 0 i res = []"
| "resumptions (Suc n) i res =
     (case res i of
        LookupNotOk \<Rightarrow> RoomLookupDone LookupNotOk # RetryWaitDone i # resumptions n (i + 1) res
      | r \<Rightarrow> [RoomLookupDone r])"

text \<open>
  The operations handed to \<^verbatim>\<open>onAction\<close>, the relay polls, the rosters and the room lookups
  in a trace.
\<close>

definition delivered :: "effect list \<Rightarrow> GameAction list" where
  "delivered tr = concat (map (\<lambda>e. case e of OnAction a \<Rightarrow> [a] | _ \<Rightarrow> []) tr)"

definition pollRequests :: "effect list \<Rightarrow> nat" where
  "pollRequests tr = length (filter (\<lambda>e. case e of PollRequest _ \<Rightarrow> True | _ \<Rightarrow> False) tr)"

definition rosters :: "effect list \<Rightarrow> Player list list" where
  "rosters tr = concat (map (\<lambda>e. case e of OnPlayersChange ps \<Rightarrow> [ps] | _ \<Rightarrow> []) tr)"

text \<open>
  The wait for ICE gathering, said directly: an event counts while it comes before the
  3000 ms timer and is not the change to \<^verbatim>\<open>'complete'\<close>; the wait ends at the first event that
  does not count (at its time, or at 3000 ms if that is earlier), or at 3000 ms when there
  is none; the candidates gathered in time are those of the events that count.
\<close>

definition eventCandidates :: "pc_event list \<Rightarrow> candidate list" where
  "eventCandidates evs =
     concat (map (\<lambda>e. case e of IceCandidateEvent (Some c) \<Rightarrow> [c] | _ \<Rightarrow> []) evs)"

definition beforeWaitEnds :: "nat \<times> pc_event \<Rightarrow> bool" where
  "beforeWaitEnds te = (fst te < 3000 \<and> snd te \<noteq> IceGatheringStateChange IceComplete)"

definition waitEnd :: "ice_gathering_state \<Rightarrow> (nat \<times> pc_event) list \<Rightarrow> nat" where
  "waitEnd st evs =
     (if st = IceComplete then 0
      else case find (\<lambda>te. \<not> beforeWaitEnds te) evs of
             None \<Rightarrow> 3000
           | Some te \<Rightarrow> min (fst te) 3000)"

definition gatheredInTime :: "ice_gathering_state \<Rightarrow> (nat \<times> pc_event) list \<Rightarrow> candidate list" where
  "gatheredInTime st evs =
     (if st = IceComplete then []
      else eventCandidates (map snd (takeWhile beforeWaitEnds evs)))"

text \<open>
  The \<^verbatim>\<open>addIceCandidate\<close> calls in a trace (connection and candidate), and the candidates of
  a list of signals read as legacy messages, in order of arrival.
\<close>

definition applied :: "effect list \<Rightarrow> (nat \<times> candidate) list" where
  "applied tr = concat (map (\<lambda>e. case e of AddIceCandidate pc c \<Rightarrow> [(pc, c)] | _ \<Rightarrow> []) tr)"

definition arrived :: "(SignalMessage \<times> negotiation) list \<Rightarrow> candidate list" where
  "arrived sigs = concat (map (\<lambda>sg. legacyCandidates (sig_payload (fst sg))) sigs)"

text \<open>
  The roster invariant: the host flag and the self player are \<open>h\<close> and \<open>pl\<close>, which agree,
  and in every roster handed to \<^verbatim>\<open>onPlayersChange\<close> the entries flagged as host are \<open>pl\<close> alone
  for a host and none for a guest.
\<close>

definition rosterInv :: "bool \<Rightarrow> Player \<Rightarrow> provider \<Rightarrow> bool" where
  "rosterInv h pl s =
     (isHost s = h \<and> player s = pl \<and> p_isHost pl = h \<and>
      (\<forall>ps \<in> set (rosters (trace s)). filter p_isHost ps = (if h then [pl] else [])))"

text \<open>The watermark is at least \<open>n\<close> and at most the length of the operations array.\<close>

definition watermark :: "nat \<Rightarrow> provider \<Rightarrow> bool" where
  "watermark n s = (n \<le> lastAppliedIndex s \<and> lastAppliedIndex s \<le> length (operationsArray s))"

text \<open>The host flag of a provider is \<open>h\<close>.\<close>

definition hostIs :: "bool \<Rightarrow> provider \<Rightarrow> bool" where
  "hostIs h s = (isHost s = h)"


definition lookups :: "effect list \<Rightarrow> nat" where
  "lookups tr = length (filter (\<lambda>e. e = RoomLookup) tr)"

section \<open>Sample providers\<close>

definition env0 :: env where
  "env0 = \<lparr>now = 1000, genColor = (\<lambda>_. 7)\<rparr>"

definition hostOptions :: options where
  "hostOptions = \<lparr>o_roomCode = ''ROOM1'', o_cityName = ''Springfield'', o_playerName = ''Ann'',
                   o_isHost = True, o_initialGameState = JUndefined,
                   o_onConnectionChange = True, o_onPlayersChange = True, o_onAction = True,
                   o_onStateReceived = True\<rparr>"

definition guestOptions :: options where
  "guestOptions = \<lparr>o_roomCode = ''ROOM1'', o_cityName = ''Springfield'', o_playerName = ''Bob'',
                    o_isHost = False, o_initialGameState = JUndefined,
                    o_onConnectionChange = True, o_onPlayersChange = True, o_onAction = True,
                    o_onStateReceived = True\<rparr>"

definition host0 :: provider where
  "host0 = constructor env0 ''host-1'' False hostOptions"

definition guest0 :: provider where
  "guest0 = constructor env0 ''guest-2'' False guestOptions"

definition localHost0 :: provider where
  "localHost0 = constructor env0 ''host-1'' True hostOptions"

definition sigAnnounce :: SignalMessage where
  "sigAnnounce = \<lparr>sig_type = Offer, sig_from = ''guest-2'', sig_to = None,
                   sig_payload = Announce ''guest-2'' ''Bob'', sig_timestamp = 1\<rparr>"

definition ng0 :: negotiation where
  "ng0 = \<lparr>localDescription = Some 11, remoteDescriptionOk = True, gatheringState = IceNew,
          gatherEvents = [(10, IceCandidateEvent (Some (IceCandidate 1))),
                          (20, IceCandidateEvent (Some (IceCandidate 2))),
                          (30, IceGatheringStateChange IceComplete)]\<rparr>"

text \<open>
  A host that has negotiated a connection with a guest and whose channel has opened;
  and the same host after the connection reported \<^verbatim>\<open>disconnected\<close> and a snapshot was cached.
\<close>

definition hostWithGuest :: provider where
  "hostWithGuest =
     run [(env0, PollResponse (PollOk [(sigAnnounce, ng0)] None)),
          (env0, ChannelOpened ''guest-2'' 2),
          (env0, ConnectionStateChange ''guest-2'' CsConnected)] host0"

definition hostLostGuest :: provider where
  "hostLostGuest =
     run [(env0, ConnectionStateChange ''guest-2'' CsDisconnected),
          (env0, UpdateGameState (JObj 1))] hostWithGuest"

text \<open>
  Legacy candidate messages from the guest and the host, a bundled offer from the host,
  and a host that receives two candidates from the guest before the guest's announcement.
\<close>

definition sigCandidate :: "nat \<Rightarrow> SignalMessage" where
  "sigCandidate n = \<lparr>sig_type = IceCandidateSignal, sig_from = ''guest-2'', sig_to = Some ''host-1'',
                      sig_payload = CandidatePayload (IceCandidate n), sig_timestamp = n\<rparr>"

definition hostEarlyCandidates :: provider where
  "hostEarlyCandidates =
     run [(env0, PollResponse
                   (PollOk [(sigCandidate 1, ng0), (sigCandidate 2, ng0), (sigAnnounce, ng0)] None))]
       host0"

definition sigHostCandidate :: "nat \<Rightarrow> SignalMessage" where
  "sigHostCandidate n = \<lparr>sig_type = IceCandidateSignal, sig_from = ''host-1'',
                          sig_to = Some ''guest-2'',
                          sig_payload = CandidatePayload (IceCandidate n), sig_timestamp = n\<rparr>"

definition sigOffer :: SignalMessage where
  "sigOffer = \<lparr>sig_type = Offer, sig_from = ''host-1'', sig_to = Some ''guest-2'',
                sig_payload = Bundle 21 [IceCandidate 9], sig_timestamp = 3\<rparr>"

text \<open>A guest that has connected, answered the host's offer and seen the connection come up.\<close>

definition guestConnected :: provider where
  "guestConnected =
     run [(env0, Connect),
          (env0, PollResponse (PollOk [(sigOffer, ng0)] None)),
          (env0, ConnectionStateChange ''host-1'' CsConnected)] guest0"

text \<open>
  A host on which \<open>connect\<close> is called a second time while the room lookup of the first
  call is pending, and both lookups then return ok. And the same host after a guest's
  announcement has come with a poll response and the connection with the guest has come
  up.
\<close>

definition hostStartedTwice :: provider where
  "hostStartedTwice =
     run [(env0, Connect),
          (env0, Connect),
          (env0, RoomLookupDone LookupOk),
          (env0, RoomLookupDone LookupOk)] host0"

definition hostConnectedTwice :: provider where
  "hostConnectedTwice =
     run [(env0, PollResponse (PollOk [(sigAnnounce, ng0)] None)),
          (env0, ConnectionStateChange ''guest-2'' CsConnected)] hostStartedTwice"

text \<open>
  A guest constructed on localhost, so that its BroadcastChannel exists, with the
  fallback off and a connection and an open data channel with the host.
\<close>

definition localGuestLinked :: provider where
  "localGuestLinked =
     run [(env0, PollResponse (PollOk [(sigOffer, ng0)] None)),
          (env0, DataChannelReceived ''host-1'' 5),
          (env0, ChannelOpened ''host-1'' 5),
          (env0, ConnectionStateChange ''host-1'' CsConnected)]
       (constructor env0 ''guest-2'' True guestOptions)"

text \<open>Log entries authored by the host, by the guest and by a third peer.\<close>

definition opByHost :: GameAction where
  "opByHost = \<lparr>a_type = ''setTaxRate'', a_data = JNum 9, timestamp = 5, playerId = ''host-1''\<rparr>"

definition opByGuest :: GameAction where
  "opByGuest = \<lparr>a_type = ''place'', a_data = JObj 3, timestamp = 6, playerId = ''guest-2''\<rparr>"

definition opByThird :: GameAction where
  "opByThird = \<lparr>a_type = ''bulldoze'', a_data = JObj 4, timestamp = 7, playerId = ''peer-3''\<rparr>"

text \<open>
  A guest that dispatches an action of its own (at time 6) and then receives an update
  from the host with an entry the host pushed concurrently, which the merge places in
  front of the guest's. And a guest that receives an entry of the host and then an
  update with an entry of a third peer, pushed concurrently with the host's and placed
  in front of it.
\<close>

definition guestConcurrentPush :: provider where
  "guestConcurrentPush =
     run [(\<lparr>now = 6, genColor = (\<lambda>_. 7)\<rparr>,
             DispatchAction \<lparr>a_type = ''place'', a_data = JObj 3\<rparr>),
          (env0, ChannelMessage ''host-1'' (Some (Update (Merge [(0, opByHost)] []))))] guest0"

definition guestTwoMerges :: provider where
  "guestTwoMerges =
     run [(env0, ChannelMessage ''host-1'' (Some (Update (Merge [(0, opByHost)] [])))),
          (env0, ChannelMessage ''host-1'' (Some (Update (Merge [(0, opByThird)] []))))] guest0"

section \<open>Effects commute with field updates\<close>

lemma emit_emits: "emit e s = emits [e] s"
  by (simp add: emit_def emits_def)

lemma emits_fields [simp]:
  "operationsArray (emits es s) = operationsArray s"
  "metaMap (emits es s) = metaMap s"
  "awareness (emits es s) = awareness s"
  "roomCode (emits es s) = roomCode s"
  "peerId (emits es s) = peerId s"
  "isHost (emits es s) = isHost s"
  "player (emits es s) = player s"
  "opts (emits es s) = opts s"
  "lastAppliedIndex (emits es s) = lastAppliedIndex s"
  "destroyed (emits es s) = destroyed s"
  "peerConnections (emits es s) = peerConnections s"
  "dataChannels (emits es s) = dataChannels s"
  "pollingInterval (emits es s) = pollingInterval s"
  "lastSeenSignals (emits es s) = lastSeenSignals s"
  "connectedPeers (emits es s) = connectedPeers s"
  "initialGameState (emits es s) = initialGameState s"
  "pendingIceCandidates (emits es s) = pendingIceCandidates s"
  "outgoingIceCandidates (emits es s) = outgoingIceCandidates s"
  "broadcastChannel (emits es s) = broadcastChannel s"
  "useLocalFallback (emits es s) = useLocalFallback s"
  "docUpdateListener (emits es s) = docUpdateListener s"
  "channelState (emits es s) = channelState s"
  "timers (emits es s) = timers s"
  "pendingTimeouts (emits es s) = pendingTimeouts s"
  "nextId (emits es s) = nextId s"
  "localhost (emits es s) = localhost s"
  "trace (emits es s) = trace s @ es"
  by (simp_all add: emits_def)

lemma emits_Nil [simp]: "emits [] s = s"
  by (simp add: emits_def)

lemma emits_emits [simp]: "emits a (emits b s) = emits (b @ a) s"
  by (simp add: emits_def)

lemma emits_update [simp]:
  "emits es (operationsArray_update g0 s) = operationsArray_update g0 (emits es s)"
  "emits es (metaMap_update g1 s) = metaMap_update g1 (emits es s)"
  "emits es (awareness_update g2 s) = awareness_update g2 (emits es s)"
  "emits es (roomCode_update g3 s) = roomCode_update g3 (emits es s)"
  "emits es (peerId_update g4 s) = peerId_update g4 (emits es s)"
  "emits es (isHost_update g5 s) = isHost_update g5 (emits es s)"
  "emits es (player_update g6 s) = player_update g6 (emits es s)"
  "emits es (opts_update g7 s) = opts_update g7 (emits es s)"
  "emits es (lastAppliedIndex_update g8 s) = lastAppliedIndex_update g8 (emits es s)"
  "emits es (destroyed_update g9 s) = destroyed_update g9 (emits es s)"
  "emits es (peerConnections_update g10 s) = peerConnections_update g10 (emits es s)"
  "emits es (dataChannels_update g11 s) = dataChannels_update g11 (emits es s)"
  "emits es (pollingInterval_update g12 s) = pollingInterval_update g12 (emits es s)"
  "emits es (lastSeenSignals_update g13 s) = lastSeenSignals_update g13 (emits es s)"
  "emits es (connectedPeers_update g14 s) = connectedPeers_update g14 (emits es s)"
  "emits es (initialGameState_update g15 s) = initialGameState_update g15 (emits es s)"
  "emits es (pendingIceCandidates_update g16 s) = pendingIceCandidates_update g16 (emits es s)"
  "emits es (outgoingIceCandidates_update g17 s) = outgoingIceCandidates_update g17 (emits es s)"
  "emits es (broadcastChannel_update g18 s) = broadcastChannel_update g18 (emits es s)"
  "emits es (useLocalFallback_update g19 s) = useLocalFallback_update g19 (emits es s)"
  "emits es (docUpdateListener_update g20 s) = docUpdateListener_update g20 (emits es s)"
  "emits es (channelState_update g21 s) = channelState_update g21 (emits es s)"
  "emits es (timers_update g22 s) = timers_update g22 (emits es s)"
  "emits es (pendingTimeouts_update g23 s) = pendingTimeouts_update g23 (emits es s)"
  "emits es (nextId_update g24 s) = nextId_update g24 (emits es s)"
  "emits es (localhost_update g25 s) = localhost_update g25 (emits es s)"
  by (simp_all add: emits_def)

lemma if_emits [simp]:
  "(if c then emits a s else emits b s) = emits (if c then a else b) s"
  "(if c then emits a s else s) = emits (if c then a else []) s"
  "(if c then s else emits b s) = emits (if c then [] else b) s"
  by simp_all

lemma constructor_fields [simp]:
  "operationsArray (constructor ev pid lh options) = []"
  "metaMap (constructor ev pid lh options) = (if o_isHost options
        then [(''hostId'', JStr pid), (''createdAt'', JNum (int (now ev))),
              (''cityName'', JStr (o_cityName options)), (''roomCode'', JStr (o_roomCode options))]
        else [])"
  "awareness (constructor ev pid lh options) = Some \<lparr>aw_player = \<lparr>p_id = pid, p_name = o_playerName options, p_color = genColor ev pid,
               p_joinedAt = now ev, p_isHost = o_isHost options\<rparr>, aw_fields = []\<rparr>"
  "roomCode (constructor ev pid lh options) = o_roomCode options"
  "peerId (constructor ev pid lh options) = pid"
  "isHost (constructor ev pid lh options) = o_isHost options"
  "player (constructor ev pid lh options) = \<lparr>p_id = pid, p_name = o_playerName options, p_color = genColor ev pid,
               p_joinedAt = now ev, p_isHost = o_isHost options\<rparr>"
  "opts (constructor ev pid lh options) = options"
  "lastAppliedIndex (constructor ev pid lh options) = 0"
  "destroyed (constructor ev pid lh options) = False"
  "peerConnections (constructor ev pid lh options) = []"
  "dataChannels (constructor ev pid lh options) = []"
  "pollingInterval (constructor ev pid lh options) = None"
  "lastSeenSignals (constructor ev pid lh options) = []"
  "connectedPeers (constructor ev pid lh options) = []"
  "initialGameState (constructor ev pid lh options) = (if o_isHost options then o_initialGameState options else JNull)"
  "pendingIceCandidates (constructor ev pid lh options) = []"
  "outgoingIceCandidates (constructor ev pid lh options) = []"
  "broadcastChannel (constructor ev pid lh options) = lh"
  "useLocalFallback (constructor ev pid lh options) = False"
  "docUpdateListener (constructor ev pid lh options) = False"
  "channelState (constructor ev pid lh options) = []"
  "timers (constructor ev pid lh options) = []"
  "pendingTimeouts (constructor ev pid lh options) = 0"
  "nextId (constructor ev pid lh options) = 1"
  "localhost (constructor ev pid lh options) = lh"
  "trace (constructor ev pid lh options) = []"
  by (simp_all add: constructor_def Let_def)

lemma sample_options [simp]:
  "o_isHost hostOptions" "\<not> o_isHost guestOptions"
  "o_onConnectionChange hostOptions" "o_onPlayersChange hostOptions" "o_onAction hostOptions"
  "o_onStateReceived hostOptions"
  "o_onConnectionChange guestOptions" "o_onPlayersChange guestOptions" "o_onAction guestOptions"
  "o_onStateReceived guestOptions"
  "o_initialGameState hostOptions = JUndefined" "o_playerName hostOptions = ''Ann''"
  "o_playerName guestOptions = ''Bob''"
  by (simp_all add: hostOptions_def guestOptions_def)

lemma notifyPlayersChange_emits:
  "notifyPlayersChange ev s =
     emits (if o_onPlayersChange (opts s)
            then [OnPlayersChange (player s # map (placeholder ev) (connectedPeers s))] else []) s"
  by (simp add: notifyPlayersChange_def emit_emits)

lemma updateConnectionStatus_emits:
  "updateConnectionStatus ev s =
     emits ((if o_onConnectionChange (opts s)
             then [OnConnectionChange True (length (connectedPeers s) + 1)] else []) @
            (if o_onPlayersChange (opts s)
             then [OnPlayersChange (player s # map (placeholder ev) (connectedPeers s))] else [])) s"
  by (simp add: updateConnectionStatus_def notifyPlayersChange_emits emit_emits Let_def)

lemma enableLocalFallback_eq:
  "enableLocalFallback ev s =
     (if useLocalFallback s \<or> \<not> broadcastChannel s then s
      else (emits ([BroadcastPost (OutPlayer (player s)) (peerId s)] @
                   (if \<not> isHost s then [SetTimeout 100] else []) @
                   (if o_onConnectionChange (opts s)
                    then [OnConnectionChange True (length (connectedPeers s) + 1)] else []) @
                   (if o_onPlayersChange (opts s)
                    then [OnPlayersChange (player s # map (placeholder ev) (connectedPeers s))]
                    else [])) s)
             \<lparr>useLocalFallback := True,
              pendingTimeouts := (if isHost s then pendingTimeouts s else pendingTimeouts s + 1),
              docUpdateListener := True\<rparr>)"
  by (simp add: enableLocalFallback_def updateConnectionStatus_emits emit_emits Let_def)

lemma rosters_simps [simp]:
  "rosters [] = []"
  "rosters (a @ b) = rosters a @ rosters b"
  "rosters (OnPlayersChange ps # tr) = ps # rosters tr"
  "rosters (OnConnectionChange c n # tr) = rosters tr"
  "rosters (BroadcastPost m p # tr) = rosters tr"
  "rosters (SetTimeout n # tr) = rosters tr"
  by (simp_all add: rosters_def)

section \<open>Answering a state request\<close>

text \<open>
  Claim C3, as stated, fails: a host that holds a snapshot leaves a state request
  unanswered when its data channel table has no open channel for the requesting peer.
  Here the peer's connection had reported \<^verbatim>\<open>disconnected\<close>, which removed the table entry.
\<close>

theorem state_request_unanswered:
  "isHost hostLostGuest \<and> initialGameState hostLostGuest = JObj 1 \<and> truthy (JObj 1)
   \<and> trace (handleDataChannelMessage env0 (Some StateRequest) ''guest-2'' hostLostGuest) =
       trace hostLostGuest"
  by code_simp

text \<open>
  Claim C3, amended. A state request from peer \<open>r\<close> is answered with one \<^verbatim>\<open>state-sync\<close>
  carrying the cached snapshot exactly when the provider is the host, the snapshot is
  truthy, and the data channel table holds an open channel for \<open>r\<close>; the reply goes out on
  that channel and nothing else is sent. Without a truthy snapshot the request changes
  nothing. After \<open>updateGameState S\<close> with a truthy \<open>S\<close>, a host with an open channel for \<open>r\<close>
  answers with exactly \<open>S\<close>.
\<close>

theorem state_request_reply:
  "trace (handleDataChannelMessage ev (Some StateRequest) r s) =
     trace s @ (case map_of (dataChannels s) r of
                  Some ch \<Rightarrow>
                    if isHost s \<and> truthy (initialGameState s) \<and> readyState s ch = Open
                    then [ChannelSend ch (OutStateSync (initialGameState s))] else []
                | None \<Rightarrow> [])
   \<and> (\<not> truthy (initialGameState s) \<longrightarrow>
        handleDataChannelMessage ev (Some StateRequest) r s = s)
   \<and> (isHost s \<and> truthy S \<and> map_of (dataChannels s) r = Some ch \<and> readyState s ch = Open \<longrightarrow>
        trace (handleDataChannelMessage ev (Some StateRequest) r (updateGameState S s)) =
          trace s @ [ChannelSend ch (OutStateSync S)])"
  by (simp add: handleDataChannelMessage_def emit_emits updateGameState_def readyState_def
      split: option.split)

theorem state_request_reply_witness:
  "\<not> truthy (initialGameState hostWithGuest)
   \<and> handleDataChannelMessage env0 (Some StateRequest) ''guest-2'' hostWithGuest = hostWithGuest
   \<and> (isHost hostWithGuest \<and> truthy (JObj 1)
        \<and> map_of (dataChannels hostWithGuest) ''guest-2'' = Some 2
        \<and> readyState hostWithGuest 2 = Open)
   \<and> trace (handleDataChannelMessage env0 (Some StateRequest) ''guest-2''
              (updateGameState (JObj 1) hostWithGuest)) =
       trace hostWithGuest @ [ChannelSend 2 (OutStateSync (JObj 1))]"
proof -
  have a: "\<not> truthy (initialGameState hostWithGuest)" by code_simp
  have b: "isHost hostWithGuest \<and> truthy (JObj 1)
           \<and> map_of (dataChannels hostWithGuest) ''guest-2'' = Some 2
           \<and> readyState hostWithGuest 2 = Open" by code_simp
  show ?thesis
    using state_request_reply [of env0 "''guest-2''" hostWithGuest "JObj 1" 2] a b by blast
qed

section \<open>The host's room lookups before polling\<close>

lemma roomChecks_not_ok_from:
  "\<forall>j<6. res j = LookupNotOk \<Longrightarrow>
     roomChecks i res = (concat (replicate (6 - i) [RoomLookup, Waited 500]), True)"
proof (induction i res rule: roomChecks.induct)
  case (1 i res)
  show ?case
  proof (cases "i < 6")
    case True
    then have r: "res i = LookupNotOk" using 1 by simp
    have d: "6 - i = Suc (5 - i)" using True by simp
    have ih: "roomChecks (i + 1) res =
                (concat (replicate (6 - (i + 1)) [RoomLookup, Waited 500]), True)"
      using 1 True r by simp
    show ?thesis
      using ih True r by (simp add: roomChecks.simps [of i] d)
  next
    case False
    then show ?thesis by (simp add: roomChecks.simps [of i])
  qed
qed

lemma roomChecks_bounded:
  "i \<le> 6 \<Longrightarrow> lookups (fst (roomChecks i res)) \<le> 6 - i"
proof (induction i res rule: roomChecks.induct)
  case (1 i res)
  show ?case
  proof (cases "i < 6")
    case True
    then show ?thesis
      using 1 by (cases "res i") (auto simp: roomChecks.simps [of i] lookups_def split: prod.splits)
  next
    case False
    then show ?thesis by (simp add: roomChecks.simps [of i] lookups_def)
  qed
qed

lemma roomChecks_no_throw:
  "\<forall>j<6. res j \<noteq> LookupThrows \<Longrightarrow> snd (roomChecks i res)"
proof (induction i res rule: roomChecks.induct)
  case (1 i res)
  show ?case
  proof (cases "i < 6")
    case True
    then show ?thesis
      using 1 by (cases "res i") (auto simp: roomChecks.simps [of i] split: prod.splits)
  next
    case False
    then show ?thesis by (simp add: roomChecks.simps [of i])
  qed
qed


lemma pollSignals_emits:
  "pollSignals s = emits (if destroyed s then [] else [PollRequest (lastSeenSignals s)]) s"
  by (simp add: pollSignals_def emit_emits)

lemma startSignalPolling_eq:
  "startSignalPolling res s =
     (case pollingInterval s of
        Some _ \<Rightarrow> s
      | None \<Rightarrow>
          let r = (if isHost s then roomChecks 0 res else ([], True))
          in if \<not> snd r then emits (fst r) s
             else (emits (fst r @ [SetInterval (nextId s) 2000] @
                          (if destroyed s then [] else [PollRequest (lastSeenSignals s)])) s)
                    \<lparr>pollingInterval := Some (nextId s), timers := timers s @ [nextId s],
                     nextId := nextId s + 1\<rparr>)"
  by (simp add: startSignalPolling_def pollSignals_emits emit_emits Let_def
      split: option.split prod.split)

lemma startPollingEnd_eq:
  "startPollingEnd s =
     (emits ([SetInterval (nextId s) 2000] @
             (if destroyed s then [] else [PollRequest (lastSeenSignals s)])) s)
       \<lparr>pollingInterval := Some (nextId s), timers := timers s @ [nextId s],
        nextId := nextId s + 1\<rparr>"
  by (simp add: startPollingEnd_def pollSignals_emits emit_emits Let_def)

lemma roomChecks_effects:
  "set (fst (roomChecks i res)) \<subseteq> {RoomLookup, Waited 500}"
proof (induction i res rule: roomChecks.induct)
  case (1 i res)
  show ?case
  proof (cases "i < 6")
    case True
    then show ?thesis
      using 1 by (cases "res i") (auto simp: roomChecks.simps [of i] split: prod.splits)
  next
    case False
    then show ?thesis by (simp add: roomChecks.simps [of i])
  qed
qed

lemma pollRequests_simps [simp]:
  "pollRequests [] = 0"
  "pollRequests (e # tr) = (case e of PollRequest _ \<Rightarrow> 1 | _ \<Rightarrow> 0) + pollRequests tr"
  "pollRequests (a @ b) = pollRequests a + pollRequests b"
  by (simp_all add: pollRequests_def split: effect.split)

lemma pollRequests_roomChecks [simp]: "pollRequests (fst (roomChecks i res)) = 0"
proof -
  have "\<forall>e \<in> set (fst (roomChecks i res)). \<not> (case e of PollRequest _ \<Rightarrow> True | _ \<Rightarrow> False)"
    using roomChecks_effects [of i res] by auto
  then show ?thesis unfolding pollRequests_def by simp
qed


text \<open>
  Claim C9. A host that connects (not destroyed, not on localhost, not polling yet) and
  whose room lookups all come back not-ok makes exactly six lookups, each followed by a
  wait of 500 ms, then sets the 2000 ms polling interval and issues the first poll.
  Whatever the lookups return, as long as none of them throws, polling starts: the
  interval is set and active, at most six lookups were made, and one poll was issued.
\<close>

theorem host_room_retry:
  assumes "isHost s" "\<not> destroyed s" "\<not> localhost s" "pollingInterval s = None"
  shows "((\<forall>i<6. res i = LookupNotOk) \<longrightarrow>
            trace (connect ev res s) =
              trace s @ (if o_onConnectionChange (opts s) then [OnConnectionChange True 1] else [])
                @ (if o_onPlayersChange (opts s)
                   then [OnPlayersChange (player s # map (placeholder ev) (connectedPeers s))]
                   else [])
                @ concat (replicate 6 [RoomLookup, Waited 500])
                @ [SetInterval (nextId s) 2000, PollRequest (lastSeenSignals s)])
       \<and> ((\<forall>i<6. res i \<noteq> LookupThrows) \<longrightarrow>
            pollingInterval (connect ev res s) = Some (nextId s)
            \<and> nextId s \<in> set (timers (connect ev res s))
            \<and> lookups (trace (connect ev res s)) \<le> lookups (trace s) + 6
            \<and> pollRequests (trace (connect ev res s)) = pollRequests (trace s) + 1)"
proof -
  have b: "lookups (fst (roomChecks 0 res)) \<le> 6"
    using roomChecks_bounded [of 0 res] by simp
  show ?thesis
    using assms b
    by (auto simp: connect_def startSignalPolling_eq notifyPlayersChange_emits emit_emits Let_def
        roomChecks_not_ok_from roomChecks_no_throw lookups_def)
qed


theorem host_room_retry_witness:
  "isHost host0 \<and> \<not> destroyed host0 \<and> \<not> localhost host0 \<and> pollingInterval host0 = None
   \<and> pollingInterval (connect env0 (\<lambda>_. LookupNotOk) host0) = Some 1
   \<and> pollRequests (trace (connect env0 (\<lambda>_. LookupNotOk) host0)) = 1"
proof -
  have h: "isHost host0" "\<not> destroyed host0" "\<not> localhost host0" "pollingInterval host0 = None"
    by (simp_all add: host0_def)
  have n: "nextId host0 = 1" "trace host0 = []" by (simp_all add: host0_def)
  have g: "\<forall>i<6. (\<lambda>_. LookupNotOk) i \<noteq> LookupThrows" by simp
  have "pollingInterval (connect env0 (\<lambda>_. LookupNotOk) host0) = Some (nextId host0)
        \<and> pollRequests (trace (connect env0 (\<lambda>_. LookupNotOk) host0)) =
            pollRequests (trace host0) + 1"
    using host_room_retry [OF h, of "\<lambda>_. LookupNotOk" env0] g by blast
  then show ?thesis
    using h n by simp
qed

text \<open>
  \<open>connect ev res\<close> is the call of \<open>connect\<close> followed at once by the resumptions of
  \<^verbatim>\<open>startPolling\<close> that the lookup outcomes \<open>res\<close> give rise to.
\<close>

lemma rounds_from:
  "n + i = 6 \<Longrightarrow> 0 < n \<Longrightarrow>
     run (map (Pair ev) (resumptions n i res)) (emit RoomLookup s) =
       (if snd (roomChecks i res) then startPollingEnd (emits (fst (roomChecks i res)) s)
        else emits (fst (roomChecks i res)) s)"
proof (induction n arbitrary: i s)
  case 0
  then show ?case by simp
next
  case (Suc n)
  have i: "i < 6" using Suc.prems by simp
  show ?case
  proof (cases "res i")
    case LookupOk
    then show ?thesis
      using i by (simp add: roomChecks.simps [of i] afterRoomLookup_def emit_emits)
  next
    case LookupThrows
    then show ?thesis
      using i by (simp add: roomChecks.simps [of i] afterRoomLookup_def emit_emits)
  next
    case LookupNotOk
    have r: "roomChecks i res =
               (RoomLookup # Waited 500 # fst (roomChecks (i + 1) res), snd (roomChecks (i + 1) res))"
      using i LookupNotOk by (simp add: roomChecks.simps [of i] split_def Let_def)
    have st: "run (map (Pair ev) (resumptions (Suc n) i res)) (emit RoomLookup s) =
                run (map (Pair ev) (resumptions n (i + 1) res))
                  (afterRetryWait i (emits [RoomLookup] s))"
      using LookupNotOk by (simp add: afterRoomLookup_def emit_emits)
    show ?thesis
    proof (cases n)
      case 0
      then have i5: "i + 1 = 6" using Suc.prems by simp
      have l: "roomChecks (i + 1) res = ([], True)"
        unfolding i5 by (simp add: roomChecks.simps [of 6])
      have w: "afterRetryWait i (emits [RoomLookup] s) =
                 startPollingEnd (emits [RoomLookup, Waited 500] s)"
        using i5 by (simp add: afterRetryWait_def emit_emits Let_def)
      show ?thesis
        unfolding st r l w by (simp add: 0)
    next
      case (Suc m)
      then have i5: "i + 1 < 6" and n: "n + (i + 1) = 6" "0 < n" using Suc.prems by simp_all
      have w: "afterRetryWait i (emits [RoomLookup] s) =
                 emit RoomLookup (emits [RoomLookup, Waited 500] s)"
        using i5 by (simp add: afterRetryWait_def emit_emits Let_def)
      show ?thesis
        unfolding st r w Suc.IH [OF n] by simp
    qed
  qed
qed

lemma connect_in_steps:
  "connect ev res s =
     run (map (Pair ev)
            (Connect # (if isHost s \<and> \<not> destroyed s \<and> \<not> localhost s \<and> pollingInterval s = None
                        then resumptions 6 0 res else []))) s"
proof -
  define s2 where "s2 = notifyPlayersChange ev
               (if o_onConnectionChange (opts s) then emit (OnConnectionChange True 1) s else s)"
  have f: "isHost s2 = isHost s" "pollingInterval s2 = pollingInterval s"
          "localhost s2 = localhost s"
    by (simp_all add: s2_def notifyPlayersChange_emits emit_emits)
  have c1: "connect ev res s =
              (if destroyed s then s
               else if localhost s then enableLocalFallback ev s2
               else if \<not> isHost (startSignalPolling res s2)
                    then announcePresence (startSignalPolling res s2)
                    else startSignalPolling res s2)"
    by (simp add: connect_def s2_def f [unfolded s2_def] Let_def)
  have c2: "connectCall ev s =
              (if destroyed s then s
               else if localhost s then enableLocalFallback ev s2
               else if \<not> isHost (startSignalPollingCall s2)
                    then announcePresence (startSignalPollingCall s2)
                    else startSignalPollingCall s2)"
    by (simp add: connectCall_def s2_def f [unfolded s2_def] Let_def)
  show ?thesis
  proof (cases "isHost s \<and> \<not> destroyed s \<and> \<not> localhost s \<and> pollingInterval s = None")
    case True
    have p: "startSignalPolling res s2 =
               (if snd (roomChecks 0 res) then startPollingEnd (emits (fst (roomChecks 0 res)) s2)
                else emits (fst (roomChecks 0 res)) s2)"
      using True f by (simp add: startSignalPolling_eq startPollingEnd_eq Let_def)
    have h: "isHost (startSignalPolling res s2)"
      using True f by (simp add: p startPollingEnd_eq)
    have a: "connect ev res s = startSignalPolling res s2"
      using True h by (simp add: c1)
    have q: "startSignalPollingCall s2 = emit RoomLookup s2"
      using True f by (simp add: startSignalPollingCall_def startPollingCall_def)
    have c: "connectCall ev s = emit RoomLookup s2"
      using True f by (simp add: c2 q emit_emits)
    have "run (map (Pair ev) (Connect # resumptions 6 0 res)) s =
            run (map (Pair ev) (resumptions 6 0 res)) (emit RoomLookup s2)"
      by (simp add: c)
    also have "\<dots> = startSignalPolling res s2"
      unfolding p by (rule rounds_from) simp_all
    finally show ?thesis using True a by simp
  next
    case False
    have p: "destroyed s \<or> localhost s \<or> startSignalPolling res s2 = startSignalPollingCall s2"
    proof (cases "pollingInterval s")
      case None
      then have "destroyed s \<or> localhost s \<or> \<not> isHost s" using False by blast
      then show ?thesis
        using None f
        by (auto simp: startSignalPolling_def startSignalPollingCall_def startPollingCall_def
            startPollingEnd_def Let_def)
    next
      case (Some i)
      then show ?thesis
        using f by (simp add: startSignalPolling_def startSignalPollingCall_def)
    qed
    have "connect ev res s = connectCall ev s"
      using p unfolding c1 c2 by auto
    moreover have "run (map (Pair ev) [Connect]) s = connectCall ev s" by simp
    ultimately show ?thesis using False by (simp only: if_False)
  qed
qed

section \<open>The bundled offer\<close>

lemma eventCandidates_simps [simp]:
  "eventCandidates [] = []"
  "eventCandidates (IceCandidateEvent (Some c) # evs) = c # eventCandidates evs"
  "eventCandidates (IceCandidateEvent None # evs) = eventCandidates evs"
  "eventCandidates (IceGatheringStateChange g # evs) = eventCandidates evs"
  "eventCandidates (a @ b) = eventCandidates a @ eventCandidates b"
  by (simp_all add: eventCandidates_def)

lemma getOrEmpty_update [simp]: "getOrEmpty (AList.update k v m) k = v"
  by (simp add: getOrEmpty_def AList.update_conv')

lemma onPcEvent_simps:
  "onPcEvent r s (IceCandidateEvent None) = s"
  "onPcEvent r s (IceCandidateEvent (Some c)) =
     s\<lparr>outgoingIceCandidates :=
         AList.update r (getOrEmpty (outgoingIceCandidates s) r @ [c]) (outgoingIceCandidates s)\<rparr>"
  "onPcEvent r s (IceGatheringStateChange g) = s"
  by (simp_all add: onPcEvent_def onicecandidate_def Let_def)

lemma foldl_onPcEvent:
  "foldl (onPcEvent r) s evs =
     (if eventCandidates evs = [] then s
      else s\<lparr>outgoingIceCandidates :=
               AList.update r (getOrEmpty (outgoingIceCandidates s) r @ eventCandidates evs)
                 (outgoingIceCandidates s)\<rparr>)"
proof (induction evs arbitrary: s)
  case Nil
  then show ?case by simp
next
  case (Cons e evs)
  show ?case
  proof (cases e)
    case (IceCandidateEvent c)
    then show ?thesis
      by (cases c) (simp_all add: Cons onPcEvent_simps)
  next
    case (IceGatheringStateChange g)
    then show ?thesis by (simp add: Cons onPcEvent_simps)
  qed
qed

lemma eventCandidates_Cons:
  "eventCandidates (e # evs) = eventCandidates [e] @ eventCandidates evs"
  by (simp add: eventCandidates_def)

lemma gatherUntil_candidates:
  "eventCandidates (fst (gatherUntil evs)) = eventCandidates (map snd (takeWhile beforeWaitEnds evs))"
proof (induction evs rule: gatherUntil.induct)
  case 1
  then show ?case by simp
next
  case (2 t e rest)
  show ?case
  proof (cases "t \<ge> 3000")
    case True
    then show ?thesis by (simp add: beforeWaitEnds_def)
  next
    case False
    show ?thesis
    proof (cases "e = IceGatheringStateChange IceComplete")
      case True
      then show ?thesis using False by (simp add: beforeWaitEnds_def)
    next
      case ne: False
      have b: "beforeWaitEnds (t, e)" using False ne by (simp add: beforeWaitEnds_def)
      obtain es d where g: "gatherUntil rest = (es, d)" by (cases "gatherUntil rest")
      have ih: "eventCandidates es = eventCandidates (map snd (takeWhile beforeWaitEnds rest))"
        using 2 False ne g by simp
      show ?thesis
        using False ne b g ih
        by (simp add: eventCandidates_Cons [of e es]
            eventCandidates_Cons [of e "map snd (takeWhile beforeWaitEnds rest)"])
    qed
  qed
qed

lemma gatherUntil_time:
  "snd (gatherUntil evs) =
     (case find (\<lambda>te. \<not> beforeWaitEnds te) evs of None \<Rightarrow> 3000 | Some te \<Rightarrow> min (fst te) 3000)"
  by (induction evs rule: gatherUntil.induct)
     (auto simp: beforeWaitEnds_def split: prod.splits)

lemma waitForIceGathering_spec:
  "eventCandidates (fst (waitForIceGathering st evs)) = gatheredInTime st evs"
  "snd (waitForIceGathering st evs) = waitEnd st evs"
  by (simp_all add: waitForIceGathering_def gatheredInTime_def waitEnd_def
      gatherUntil_candidates gatherUntil_time)

lemma awaitIceGathering_eq:
  "awaitIceGathering ng r s =
     emits [Waited (waitEnd (gatheringState ng) (gatherEvents ng))]
       (if gatheredInTime (gatheringState ng) (gatherEvents ng) = [] then s
        else s\<lparr>outgoingIceCandidates :=
                 AList.update r (getOrEmpty (outgoingIceCandidates s) r @
                                 gatheredInTime (gatheringState ng) (gatherEvents ng))
                   (outgoingIceCandidates s)\<rparr>)"
proof -
  obtain evs d where w: "waitForIceGathering (gatheringState ng) (gatherEvents ng) = (evs, d)"
    by (cases "waitForIceGathering (gatheringState ng) (gatherEvents ng)")
  have c: "eventCandidates evs = gatheredInTime (gatheringState ng) (gatherEvents ng)"
    using waitForIceGathering_spec(1) [of "gatheringState ng" "gatherEvents ng"] w by simp
  have t: "d = waitEnd (gatheringState ng) (gatherEvents ng)"
    using waitForIceGathering_spec(2) [of "gatheringState ng" "gatherEvents ng"] w by simp
  show ?thesis
    by (simp add: awaitIceGathering_def w foldl_onPcEvent c t emit_emits)
qed

lemma waitEnd_le: "waitEnd st evs \<le> 3000"
  by (simp add: waitEnd_def split: option.splits)


text \<open>
  Claim C5. When \<open>createPeerConnection\<close> is called as the offering side for a peer without
  a connection, and the local description is produced, it makes the connection and its
  data channel, sets the local description, waits until gathering completes or 3000 ms
  have passed (whichever is first, at most 3000 ms), and then posts exactly one signal:
  an offer bundling the description with the outgoing candidate buffer of that peer,
  which holds what it held before followed by the candidates gathered during the wait.
  Afterwards the buffer has no entry for the peer.
\<close>

theorem offer_bundled:
  assumes "map_of (peerConnections s) r = None" and "localDescription ng = Some d"
  shows "fst (createPeerConnection ng r True s) = Some (nextId s)
       \<and> trace (snd (createPeerConnection ng r True s)) =
           trace s @ [NewPeerConnection (nextId s), CreateDataChannel (nextId s) (nextId s + 1),
                      SetLocalDescription (nextId s) d,
                      Waited (waitEnd (gatheringState ng) (gatherEvents ng)),
                      SignalPost Offer
                        (Bundle d (getOrEmpty (outgoingIceCandidates s) r @
                                   gatheredInTime (gatheringState ng) (gatherEvents ng)))
                        (Some r)]
       \<and> map_of (outgoingIceCandidates (snd (createPeerConnection ng r True s))) r = None
       \<and> map_of (peerConnections (snd (createPeerConnection ng r True s))) r = Some (nextId s)
       \<and> map_of (dataChannels (snd (createPeerConnection ng r True s))) r = Some (nextId s + 1)
       \<and> waitEnd (gatheringState ng) (gatherEvents ng) \<le> 3000"
  using assms
  by (simp add: createPeerConnection_def awaitIceGathering_eq setupDataChannel_def sendSignal_def
      emit_emits Let_def AList.update_conv' AList.delete_conv' waitEnd_le)


theorem offer_bundled_witness:
  "map_of (peerConnections host0) ''guest-2'' = None \<and> localDescription ng0 = Some 11
   \<and> trace (snd (createPeerConnection ng0 ''guest-2'' True host0)) =
       [NewPeerConnection 1, CreateDataChannel 1 2, SetLocalDescription 1 11, Waited 30,
        SignalPost Offer (Bundle 11 [IceCandidate 1, IceCandidate 2]) (Some ''guest-2'')]
   \<and> map_of (outgoingIceCandidates (snd (createPeerConnection ng0 ''guest-2'' True host0)))
         ''guest-2'' = None"
proof -
  have h: "map_of (peerConnections host0) ''guest-2'' = None" "localDescription ng0 = Some 11"
    by (simp_all add: host0_def ng0_def)
  have w: "waitEnd (gatheringState ng0) (gatherEvents ng0) = 30"
    by (simp add: waitEnd_def ng0_def beforeWaitEnds_def)
  have g: "gatheredInTime (gatheringState ng0) (gatherEvents ng0) = [IceCandidate 1, IceCandidate 2]"
    by (simp add: gatheredInTime_def ng0_def beforeWaitEnds_def)
  have n: "nextId host0 = 1" "trace host0 = []" "outgoingIceCandidates host0 = []"
    by (simp_all add: host0_def)
  show ?thesis
    using offer_bundled [OF h] h w g n by (simp add: getOrEmpty_def)
qed

section \<open>Legacy candidate messages\<close>

text \<open>
  Claim C4, as stated, fails: the host had no connection for the guest when two legacy
  candidates arrived, so both were buffered; the guest's announcement then created the
  connection (on the offering side), and the buffered candidates were not applied: no
  \<^verbatim>\<open>addIceCandidate\<close> call was made and the buffer still holds both.
\<close>

theorem buffered_candidates_never_applied:
  "map_of (peerConnections host0) ''guest-2'' = None
   \<and> map_of (peerConnections hostEarlyCandidates) ''guest-2'' = Some 1
   \<and> applied (trace hostEarlyCandidates) = []
   \<and> map_of (pendingIceCandidates hostEarlyCandidates) ''guest-2'' =
       Some [IceCandidate 1, IceCandidate 2]"
  by code_simp

lemma applied_simps [simp]:
  "applied [] = []"
  "applied (e # tr) = (case e of AddIceCandidate pc c \<Rightarrow> [(pc, c)] | _ \<Rightarrow> []) @ applied tr"
  "applied (a @ b) = applied a @ applied b"
  by (simp_all add: applied_def)

lemma applied_map_AddIceCandidate [simp]:
  "applied (map (AddIceCandidate pc) cs) = map (Pair pc) cs"
  by (induction cs) simp_all

lemma arrived_simps [simp]:
  "arrived [] = []"
  "arrived (sg # sigs) = legacyCandidates (sig_payload (fst sg)) @ arrived sigs"
  by (simp_all add: arrived_def)

lemma handleSignal_legacy:
  "sig_type sg = IceCandidateSignal \<Longrightarrow>
     handleSignal ng sg s = (True, handleLegacyIceCandidate sg s)"
  by (simp add: handleSignal_def)

lemma legacy_buffered:
  assumes "\<forall>sg \<in> set sigs. sig_type (fst sg) = IceCandidateSignal \<and> sig_from (fst sg) = x"
      and "map_of (peerConnections s) x = None"
  shows "handleSignals (sigs @ later) s =
           handleSignals later
             (if sigs = [] then s
              else s\<lparr>pendingIceCandidates :=
                       AList.update x (getOrEmpty (pendingIceCandidates s) x @ arrived sigs)
                         (pendingIceCandidates s)\<rparr>)"
  using assms
proof (induction sigs arbitrary: s)
  case Nil
  then show ?case by simp
next
  case (Cons sg sigs)
  obtain m ng where sg: "sg = (m, ng)" by (cases sg)
  have m: "sig_type m = IceCandidateSignal" "sig_from m = x" using Cons.prems sg by auto
  let ?s1 = "handleLegacyIceCandidate m s"
  have s1: "?s1 = s\<lparr>pendingIceCandidates :=
                       AList.update x (getOrEmpty (pendingIceCandidates s) x @
                                       legacyCandidates (sig_payload m))
                         (pendingIceCandidates s)\<rparr>"
    using Cons.prems(2) m by (simp add: handleLegacyIceCandidate_def Let_def)
  have pc1: "map_of (peerConnections ?s1) x = None" using Cons.prems(2) by (simp add: s1)
  have rest: "\<forall>sg \<in> set sigs. sig_type (fst sg) = IceCandidateSignal \<and> sig_from (fst sg) = x"
    using Cons.prems by simp
  have "handleSignals ((sg # sigs) @ later) s = handleSignals (sigs @ later) ?s1"
    by (simp add: sg handleSignal_legacy m)
  also have "\<dots> = handleSignals later
             (if sigs = [] then ?s1
              else ?s1\<lparr>pendingIceCandidates :=
                       AList.update x (getOrEmpty (pendingIceCandidates ?s1) x @ arrived sigs)
                         (pendingIceCandidates ?s1)\<rparr>)"
    using Cons.IH [OF rest pc1] .
  finally show ?case by (simp add: s1 sg)
qed

lemma legacy_applied:
  assumes "\<forall>sg \<in> set sigs. sig_type (fst sg) = IceCandidateSignal \<and> sig_from (fst sg) = x"
      and "map_of (peerConnections s) x = Some pc"
  shows "handleSignals (sigs @ later) s =
           handleSignals later (emits (map (AddIceCandidate pc) (arrived sigs)) s)"
  using assms
proof (induction sigs arbitrary: s)
  case Nil
  then show ?case by simp
next
  case (Cons sg sigs)
  obtain m ng where sg: "sg = (m, ng)" by (cases sg)
  have m: "sig_type m = IceCandidateSignal" "sig_from m = x" using Cons.prems sg by auto
  let ?s1 = "handleLegacyIceCandidate m s"
  have s1: "?s1 = emits (map (AddIceCandidate pc) (legacyCandidates (sig_payload m))) s"
    using Cons.prems(2) m by (simp add: handleLegacyIceCandidate_def Let_def)
  have pc1: "map_of (peerConnections ?s1) x = Some pc" using Cons.prems(2) by (simp add: s1)
  have rest: "\<forall>sg \<in> set sigs. sig_type (fst sg) = IceCandidateSignal \<and> sig_from (fst sg) = x"
    using Cons.prems by simp
  have "handleSignals ((sg # sigs) @ later) s = handleSignals (sigs @ later) ?s1"
    by (simp add: sg handleSignal_legacy m)
  also have "\<dots> = handleSignals later (emits (map (AddIceCandidate pc) (arrived sigs)) ?s1)"
    using Cons.IH [OF rest pc1] .
  finally show ?case by (simp add: s1 sg)
qed

lemma handleOffer_applies:
  assumes "map_of (peerConnections s) x = None" "sig_from offer = x" "remoteDescriptionOk ng"
  shows "applied (drop (length (trace s)) (trace (handleOffer ng offer s))) =
           map (Pair (nextId s))
             (payloadCandidates (sig_payload offer) @ getOrEmpty (pendingIceCandidates s) x)
       \<and> getOrEmpty (pendingIceCandidates (handleOffer ng offer s)) x = []
       \<and> map_of (peerConnections (handleOffer ng offer s)) x = Some (nextId s)
       \<and> take (length (trace s) + 2) (trace (handleOffer ng offer s)) =
           trace s @ [NewPeerConnection (nextId s),
                      SetRemoteDescription (nextId s) (sig_payload offer)]"
  using assms
  by (cases "localDescription ng")
     (simp_all add: handleOffer_def createPeerConnection_def awaitIceGathering_eq sendSignal_def
        emit_emits Let_def AList.update_conv' AList.delete_conv' getOrEmpty_def
        split: option.split)


lemma handleSignal_offer:
  "sig_type offer = Offer \<Longrightarrow> hasSdpPayload (sig_payload offer) \<Longrightarrow>
     handleSignal ng offer s = (True, handleOffer ng offer s)"
  by (cases "sig_payload offer") (simp_all add: handleSignal_def hasSdpPayload_def isAnnounce_def)


text \<open>
  Claim C4, amended. Take legacy candidate messages that all come from sender \<open>x\<close>. While
  there is no connection for \<open>x\<close>, handling them applies nothing and creates no connection:
  their candidates are appended, in arrival order, to what the buffer held for \<open>x\<close>. When
  an offer from \<open>x\<close> is handled next and its remote description is accepted, the
  connection is created and the candidates applied to it are those bundled with the
  offer followed by the buffered ones in arrival order, and no buffered candidate is
  left for \<open>x\<close>. If a connection \<open>pc\<close> for \<open>x\<close> exists, handling the messages applies their
  candidates to it at once, in order, and changes nothing else.
\<close>

theorem legacy_candidates:
  assumes "\<forall>sg \<in> set sigs. sig_type (fst sg) = IceCandidateSignal \<and> sig_from (fst sg) = x"
  shows "(map_of (peerConnections s) x = None \<longrightarrow>
            trace (handleSignals sigs s) = trace s
          \<and> getOrEmpty (pendingIceCandidates (handleSignals sigs s)) x =
              getOrEmpty (pendingIceCandidates s) x @ arrived sigs
          \<and> map_of (peerConnections (handleSignals sigs s)) x = None
          \<and> (sig_type offer = Offer \<and> hasSdpPayload (sig_payload offer) \<and> sig_from offer = x
              \<and> remoteDescriptionOk ng \<longrightarrow>
                applied (drop (length (trace s))
                          (trace (handleSignals (sigs @ [(offer, ng)]) s))) =
                  map (Pair (nextId s))
                    (payloadCandidates (sig_payload offer) @
                     getOrEmpty (pendingIceCandidates s) x @ arrived sigs)
              \<and> getOrEmpty (pendingIceCandidates (handleSignals (sigs @ [(offer, ng)]) s)) x = []
              \<and> map_of (peerConnections (handleSignals (sigs @ [(offer, ng)]) s)) x =
                  Some (nextId s)))
       \<and> (map_of (peerConnections s) x = Some pc \<longrightarrow>
            handleSignals sigs s = emits (map (AddIceCandidate pc) (arrived sigs)) s)"
proof (intro conjI impI)
  assume pc: "map_of (peerConnections s) x = Some pc"
  show "handleSignals sigs s = emits (map (AddIceCandidate pc) (arrived sigs)) s"
    using legacy_applied [OF assms pc, of "[]"] by simp
next
  assume n: "map_of (peerConnections s) x = None"
  let ?s1 = "if sigs = [] then s
             else s\<lparr>pendingIceCandidates :=
                      AList.update x (getOrEmpty (pendingIceCandidates s) x @ arrived sigs)
                        (pendingIceCandidates s)\<rparr>"
  have e: "handleSignals sigs s = ?s1"
    using legacy_buffered [OF assms n, of "[]"] by simp
  have a0: "sigs = [] \<Longrightarrow> arrived sigs = []" by simp
  show "trace (handleSignals sigs s) = trace s" by (simp add: e)
  show "getOrEmpty (pendingIceCandidates (handleSignals sigs s)) x =
          getOrEmpty (pendingIceCandidates s) x @ arrived sigs"
    using a0 by (simp add: e)
  show "map_of (peerConnections (handleSignals sigs s)) x = None"
    using n by (simp add: e)
  assume o: "sig_type offer = Offer \<and> hasSdpPayload (sig_payload offer) \<and> sig_from offer = x
             \<and> remoteDescriptionOk ng"
  have f: "handleSignals (sigs @ [(offer, ng)]) s = handleOffer ng offer ?s1"
    using legacy_buffered [OF assms n, of "[(offer, ng)]"] o by (simp add: handleSignal_offer)
  have n1: "map_of (peerConnections ?s1) x = None" using n by simp
  have p1: "getOrEmpty (pendingIceCandidates ?s1) x =
              getOrEmpty (pendingIceCandidates s) x @ arrived sigs"
    using a0 by simp
  have t1: "trace ?s1 = trace s" "nextId ?s1 = nextId s" by simp_all
  note h = handleOffer_applies [OF n1, of offer ng]
  show "applied (drop (length (trace s)) (trace (handleSignals (sigs @ [(offer, ng)]) s))) =
          map (Pair (nextId s))
            (payloadCandidates (sig_payload offer) @
             getOrEmpty (pendingIceCandidates s) x @ arrived sigs)"
    using h o unfolding f p1 t1 by simp
  show "getOrEmpty (pendingIceCandidates (handleSignals (sigs @ [(offer, ng)]) s)) x = []"
    using h o unfolding f by simp
  show "map_of (peerConnections (handleSignals (sigs @ [(offer, ng)]) s)) x = Some (nextId s)"
    using h o unfolding f t1 by simp
qed

theorem legacy_candidates_witness:
  "sig_type (sigHostCandidate 1) = IceCandidateSignal \<and> sig_from (sigHostCandidate 1) = ''host-1''
   \<and> sig_type (sigHostCandidate 2) = IceCandidateSignal \<and> sig_from (sigHostCandidate 2) = ''host-1''
   \<and> map_of (peerConnections guest0) ''host-1'' = None
   \<and> getOrEmpty (pendingIceCandidates
        (handleSignals [(sigHostCandidate 1, ng0), (sigHostCandidate 2, ng0)] guest0)) ''host-1'' =
       [IceCandidate 1, IceCandidate 2]
   \<and> (sig_type sigOffer = Offer \<and> hasSdpPayload (sig_payload sigOffer)
       \<and> sig_from sigOffer = ''host-1'' \<and> remoteDescriptionOk ng0)
   \<and> applied (trace (handleSignals
        ([(sigHostCandidate 1, ng0), (sigHostCandidate 2, ng0)] @ [(sigOffer, ng0)]) guest0)) =
       [(1, IceCandidate 9), (1, IceCandidate 1), (1, IceCandidate 2)]"
proof -
  have c: "sig_type (sigHostCandidate 1) = IceCandidateSignal \<and> sig_from (sigHostCandidate 1) = ''host-1''
   \<and> sig_type (sigHostCandidate 2) = IceCandidateSignal \<and> sig_from (sigHostCandidate 2) = ''host-1''"
    by (simp add: sigHostCandidate_def)
  then have a: "\<forall>sg \<in> set [(sigHostCandidate 1, ng0), (sigHostCandidate 2, ng0)].
             sig_type (fst sg) = IceCandidateSignal \<and> sig_from (fst sg) = ''host-1''"
    by simp
  have n: "map_of (peerConnections guest0) ''host-1'' = None" by (simp add: guest0_def)
  have o: "sig_type sigOffer = Offer \<and> hasSdpPayload (sig_payload sigOffer)
           \<and> sig_from sigOffer = ''host-1'' \<and> remoteDescriptionOk ng0"
    by (simp add: sigOffer_def hasSdpPayload_def ng0_def)
  have g: "drop (length (trace guest0)) tr = tr" "nextId guest0 = 1"
          "getOrEmpty (pendingIceCandidates guest0) ''host-1'' @ cs = cs" for tr cs
    by (simp_all add: guest0_def getOrEmpty_def)
  have v: "arrived [(sigHostCandidate 1, ng0), (sigHostCandidate 2, ng0)] =
             [IceCandidate 1, IceCandidate 2]"
          "payloadCandidates (sig_payload sigOffer) @ [IceCandidate 1, IceCandidate 2] =
             [IceCandidate 9, IceCandidate 1, IceCandidate 2]"
          "map (Pair (1::nat)) [IceCandidate 9, IceCandidate 1, IceCandidate 2] =
             [(1, IceCandidate 9), (1, IceCandidate 1), (1, IceCandidate 2)]"
    by (simp_all add: sigHostCandidate_def sigOffer_def legacyCandidates_def payloadCandidates_def)
  note t = legacy_candidates [OF a, of guest0 sigOffer ng0]
  have p: "getOrEmpty (pendingIceCandidates
        (handleSignals [(sigHostCandidate 1, ng0), (sigHostCandidate 2, ng0)] guest0)) ''host-1'' =
       [IceCandidate 1, IceCandidate 2]"
    using t n unfolding g v by blast
  have q: "applied (trace (handleSignals
        ([(sigHostCandidate 1, ng0), (sigHostCandidate 2, ng0)] @ [(sigOffer, ng0)]) guest0)) =
       [(1, IceCandidate 9), (1, IceCandidate 1), (1, IceCandidate 2)]"
    using t n o unfolding g v by blast
  show ?thesis using c n o p q by blast
qed

section \<open>Invariants of runs\<close>

lemma handleSignals_invariant:
  assumes "\<And>ng sg s. Q s \<Longrightarrow> Q (snd (handleSignal ng sg s))" and "Q s"
  shows "Q (handleSignals sigs s)"
  using assms(2)
proof (induction sigs arbitrary: s)
  case Nil
  then show ?case by simp
next
  case (Cons a sigs)
  obtain sg ng where a: "a = (sg, ng)" by (cases a)
  obtain ok s1 where h: "handleSignal ng sg s = (ok, s1)" by (cases "handleSignal ng sg s")
  have q1: "Q s1" using assms(1) [OF Cons.prems, of ng sg] h by simp
  show ?case
    using Cons.IH [OF q1] q1 by (cases ok) (simp_all add: a h)
qed

lemma run_invariant:
  assumes "\<And>ev e s. Q s \<Longrightarrow> Q (step ev e s)" and "Q s"
  shows "Q (run es s)"
  using assms(2)
proof (induction es arbitrary: s)
  case Nil
  then show ?case by simp
next
  case (Cons a es)
  obtain ev e where a: "a = (ev, e)" by (cases a)
  show ?case using Cons.IH [OF assms(1) [OF Cons.prems, of ev e]] by (simp add: a)
qed

lemma rosters_Cons:
  "rosters (e # tr) = (case e of OnPlayersChange ps \<Rightarrow> [ps] | _ \<Rightarrow> []) @ rosters tr"
  by (simp add: rosters_def)

lemma rosters_map [simp]:
  "rosters (map (AddIceCandidate pc) cs) = []"
  "rosters (map (\<lambda>(p, pc). ClosePeerConnection pc) xs) = []"
  "rosters (map (\<lambda>(p, ch). ChannelSend ch m) ys) = []"
  "rosters (map OnAction ops) = []"
  by (simp_all add: rosters_def split_def)

lemma rosters_roomChecks [simp]: "rosters (fst (roomChecks i res)) = []"
proof -
  have "\<forall>e \<in> set (fst (roomChecks i res)). (case e of OnPlayersChange ps \<Rightarrow> [ps] | _ \<Rightarrow> []) = []"
    using roomChecks_effects [of i res] by auto
  then show ?thesis unfolding rosters_def by (induction "fst (roomChecks i res)") auto
qed

lemma foldl_deliver:
  "foldl deliver s ops =
     emits (if o_onAction (opts s)
            then map OnAction (filter (\<lambda>op. playerId op \<noteq> peerId s) ops) else []) s"
  by (induction ops arbitrary: s) (simp_all add: deliver_def emit_emits Let_def)

lemma opsObserver_eq:
  "opsObserver added s =
     (if added > 0
      then (emits (if o_onAction (opts s)
                   then map OnAction (filter (\<lambda>op. playerId op \<noteq> peerId s)
                                        (drop (lastAppliedIndex s) (operationsArray s)))
                   else []) s)\<lparr>lastAppliedIndex := length (operationsArray s)\<rparr>
      else s)"
  by (simp add: opsObserver_def foldl_deliver Let_def)

lemma docUpdateHandler_emits:
  "docUpdateHandler originRemote u s =
     emits (if docUpdateListener s \<and> \<not> originRemote \<and> useLocalFallback s \<and> broadcastChannel s
            then [BroadcastPost (OutUpdate u) (peerId s)] else []) s"
  by (simp add: docUpdateHandler_def emit_emits)



lemma run_invariant_where:
  assumes "\<And>ev e s. P e \<Longrightarrow> Q s \<Longrightarrow> Q (step ev e s)"
      and "\<forall>x \<in> set es. P (snd x)" and "Q s"
  shows "Q (run es s)"
  using assms(2,3)
proof (induction es arbitrary: s)
  case Nil
  then show ?case by simp
next
  case (Cons a es)
  obtain ev e where a: "a = (ev, e)" by (cases a)
  have p: "P e" using Cons.prems(1) a by simp
  have r: "\<forall>x \<in> set es. P (snd x)" using Cons.prems(1) by simp
  show ?case using Cons.IH [OF r assms(1) [OF p Cons.prems(2), of ev]] by (simp add: a)
qed

section \<open>The roster and the host\<close>

lemma filter_placeholder [simp]: "filter p_isHost (map (placeholder ev) xs) = []"
  by (induction xs) (simp_all add: placeholder_def)

lemmas roster_simps = rosterInv_def emit_emits notifyPlayersChange_emits
  updateConnectionStatus_emits enableLocalFallback_eq pollSignals_emits startPollingEnd_eq
  opsObserver_eq docUpdateHandler_emits awaitIceGathering_eq Let_def rosters_Cons

lemma rosterInv_docChange: "rosterInv h pl s \<Longrightarrow> rosterInv h pl (docChange r ins meta s)"
  by (simp add: rosterInv_def roster_simps docChange_def)

lemma rosterInv_connectCall: "rosterInv h pl s \<Longrightarrow> rosterInv h pl (connectCall ev s)"
  by (auto simp: rosterInv_def roster_simps connectCall_def startSignalPollingCall_def startPollingCall_def
      announcePresence_def split: option.split)

lemma rosterInv_startPolling:
  "rosterInv h pl s \<Longrightarrow> rosterInv h pl (afterRoomLookup r s)"
  "rosterInv h pl s \<Longrightarrow> rosterInv h pl (afterRetryWait i s)"
  by (simp_all add: rosterInv_def roster_simps afterRoomLookup_def afterRetryWait_def split: lookup_result.split)

lemma rosterInv_dispatchAction: "rosterInv h pl s \<Longrightarrow> rosterInv h pl (dispatchAction ev a s)"
  by (simp add: rosterInv_def roster_simps dispatchAction_def docChange_def encodeStateAsUpdate_def)

lemma rosterInv_destroy: "rosterInv h pl s \<Longrightarrow> rosterInv h pl (destroy ev s)"
  by (auto simp: rosterInv_def roster_simps destroy_def split: option.split)

lemma rosterInv_createPeerConnection:
  "rosterInv h pl s \<Longrightarrow> rosterInv h pl (snd (createPeerConnection ng r b s))"
  by (simp add: rosterInv_def roster_simps createPeerConnection_def setupDataChannel_def sendSignal_def
      split: option.split)

lemma rosterInv_handleOffer: "rosterInv h pl s \<Longrightarrow> rosterInv h pl (handleOffer ng sg s)"
  by (simp add: rosterInv_def roster_simps handleOffer_def createPeerConnection_def sendSignal_def
      split: option.split)

lemma rosterInv_handleSignal: "rosterInv h pl s \<Longrightarrow> rosterInv h pl (snd (handleSignal ng sg s))"
  using rosterInv_createPeerConnection [of h pl s ng "sig_from sg" True]
        rosterInv_handleOffer [of h pl s ng sg]
  by (simp add: handleSignal_def handleAnswer_def handleLegacyIceCandidate_def split_def
      rosterInv_def roster_simps split: option.split)

lemma rosterInv_onPollResponse: "rosterInv h pl s \<Longrightarrow> rosterInv h pl (onPollResponse r s)"
proof (cases r)
  case (PollOk sigs lastSeen)
  assume i: "rosterInv h pl s"
  have "rosterInv h pl (s\<lparr>lastSeenSignals := (case lastSeen of None \<Rightarrow> [] | Some l \<Rightarrow> l)\<rparr>)"
    using i by (simp add: rosterInv_def)
  then show ?thesis
    using handleSignals_invariant [of "rosterInv h pl", OF rosterInv_handleSignal]
    by (simp add: onPollResponse_def PollOk)
qed (simp_all add: onPollResponse_def)

lemma rosterInv_onconnectionstatechange:
  "rosterInv h pl s \<Longrightarrow> rosterInv h pl (onconnectionstatechange ev p st s)"
  by (auto simp: rosterInv_def roster_simps onconnectionstatechange_def stopPollingIfConnected_def
      split: option.split)

lemma rosterInv_channel:
  "rosterInv h pl s \<Longrightarrow> rosterInv h pl (onopen p ch s)"
  "rosterInv h pl s \<Longrightarrow> rosterInv h pl (onclose p ch s)"
  "rosterInv h pl s \<Longrightarrow> rosterInv h pl (setupDataChannel ch p s)"
  "rosterInv h pl s \<Longrightarrow> rosterInv h pl (onicecandidate p c s)"
  "rosterInv h pl s \<Longrightarrow> rosterInv h pl (onFallbackTimeout s)"
  by (simp_all add: rosterInv_def roster_simps onopen_def onclose_def setupDataChannel_def
      onicecandidate_def onFallbackTimeout_def syncDocument_def split: option.split)

lemma rosterInv_handleDataChannelMessage:
  "rosterInv h pl s \<Longrightarrow> rosterInv h pl (handleDataChannelMessage ev m p s)"
  using rosterInv_docChange [of h pl s False]
  by (simp add: handleDataChannelMessage_def applyUpdate_def rosterInv_def roster_simps
      split: option.split DataChannelMessage.split update_data.split)

lemma rosterInv_handleBroadcastMessage:
  "rosterInv h pl s \<Longrightarrow> rosterInv h pl (handleBroadcastMessage m s)"
  using rosterInv_docChange [of h pl s True]
  by (simp add: handleBroadcastMessage_def applyUpdate_def rosterInv_def roster_simps
      split: option.split DataChannelMessage.split update_data.split)

lemma rosterInv_broadcastOnMessage:
  "rosterInv h pl s \<Longrightarrow> rosterInv h pl (broadcastOnMessage ev m s)"
proof -
  assume i: "rosterInv h pl s"
  have a: "rosterInv h pl
     (if b_msg m = Awareness then
             (case (if str_truthy (b_from m) then b_from m else b_peerId m) of
                None \<Rightarrow> s
              | Some remotePeerId \<Rightarrow>
                  if remotePeerId \<noteq> [] \<and> remotePeerId \<notin> set (connectedPeers s) then
                    let s2 = updateConnectionStatus ev
                               (s\<lparr>connectedPeers := set_add remotePeerId (connectedPeers s)\<rparr>)
                    in if useLocalFallback s2 \<and> broadcastChannel s2
                       then emit (BroadcastPost (OutPlayer (player s2)) (peerId s2)) s2
                       else s2
                  else s)
           else s)" (is "rosterInv h pl ?s1")
    using i by (simp add: rosterInv_def roster_simps split: option.split)
  show ?thesis
    using i a rosterInv_handleBroadcastMessage [of h pl ?s1 m]
    by (simp add: broadcastOnMessage_def Let_def)
qed

lemma rosterInv_step: "rosterInv h pl s \<Longrightarrow> rosterInv h pl (step ev e s)"
proof (cases e)
  case (UpdateAwareness u)
  assume "rosterInv h pl s"
  then show ?thesis by (simp add: UpdateAwareness updateAwareness_def rosterInv_def)
next
  case (SetMeta k v)
  assume "rosterInv h pl s"
  then show ?thesis by (simp add: SetMeta setMeta_def rosterInv_docChange)
next
  case (UpdateGameState v)
  assume "rosterInv h pl s"
  then show ?thesis by (simp add: UpdateGameState updateGameState_def rosterInv_def)
next
  case AwarenessChange
  assume "rosterInv h pl s"
  then show ?thesis by (simp add: AwarenessChange rosterInv_def roster_simps)
next
  case (IntervalTick i)
  assume "rosterInv h pl s"
  then show ?thesis by (simp add: IntervalTick rosterInv_def roster_simps)
next
  case (ChannelStateChanged ch st)
  assume "rosterInv h pl s"
  then show ?thesis by (simp add: ChannelStateChanged rosterInv_def)
qed (simp_all add: rosterInv_connectCall rosterInv_startPolling rosterInv_dispatchAction rosterInv_destroy
      rosterInv_onPollResponse rosterInv_onconnectionstatechange rosterInv_channel
      rosterInv_handleDataChannelMessage rosterInv_broadcastOnMessage)

lemma find_placeholder [simp]: "find p_isHost (map (placeholder ev) xs) = None"
  by (induction xs) (simp_all add: placeholder_def)

lemma rosterInv_constructor:
  "rosterInv (o_isHost options) (player (constructor ev0 pid lh options))
     (constructor ev0 pid lh options)"
  by (simp add: rosterInv_def)


text \<open>
  Claim C10. After any sequence of events on a constructed provider, \<open>getHost\<close> returns
  the self player when the provider was constructed as host and nothing (\<^verbatim>\<open>undefined\<close>)
  otherwise; and in every roster handed to \<^verbatim>\<open>onPlayersChange\<close> the entries flagged as host
  are the self player alone for a host, and none for a guest.
\<close>

theorem host_is_self_only:
  "getHost ev (run es (constructor ev0 pid lh options)) =
     (if o_isHost options then Some (player (constructor ev0 pid lh options)) else None)
   \<and> (\<forall>ps \<in> set (rosters (trace (run es (constructor ev0 pid lh options)))).
        filter p_isHost ps =
          (if o_isHost options then [player (constructor ev0 pid lh options)] else []))"
proof -
  have "rosterInv (o_isHost options) (player (constructor ev0 pid lh options))
          (run es (constructor ev0 pid lh options))"
    using run_invariant [of "rosterInv (o_isHost options) (player (constructor ev0 pid lh options))",
            OF rosterInv_step rosterInv_constructor] .
  then show ?thesis
    by (auto simp: rosterInv_def getHost_def getPlayers_def)
qed

theorem host_is_self_only_witness:
  "getHost env0 (run [(env0, ConnectionStateChange ''host-1'' CsConnected)] guest0) = None
   \<and> [player guest0, placeholder env0 ''host-1'']
       \<in> set (rosters (trace (run [(env0, ConnectionStateChange ''host-1'' CsConnected)] guest0)))
   \<and> filter p_isHost [player guest0, placeholder env0 ''host-1''] = []"
proof -
  have m: "[player guest0, placeholder env0 ''host-1'']
       \<in> set (rosters (trace (run [(env0, ConnectionStateChange ''host-1'' CsConnected)] guest0)))"
    by (simp add: guest0_def onconnectionstatechange_def updateConnectionStatus_emits
        stopPollingIfConnected_def set_add_def)
  have g: "o_isHost guestOptions = False" by simp
  have t: "getHost env0 (run [(env0, ConnectionStateChange ''host-1'' CsConnected)] guest0) = None
           \<and> (\<forall>ps \<in> set (rosters (trace
                 (run [(env0, ConnectionStateChange ''host-1'' CsConnected)] guest0))).
                 filter p_isHost ps = [])"
    unfolding guest0_def
    using host_is_self_only [of env0 _ env0 "''guest-2''" False guestOptions]
    by (simp only: g if_False, blast)
  show ?thesis using t m by blast
qed

section \<open>Evaluating runs\<close>

lemma pollRequests_map [simp]:
  "pollRequests (map (AddIceCandidate pc) cs) = 0"
  "pollRequests (map (\<lambda>(p, pc). ClosePeerConnection pc) xs) = 0"
  "pollRequests (map (\<lambda>(p, ch). ChannelSend ch m) ys) = 0"
  "pollRequests (map OnAction ops) = 0"
  by (simp_all add: pollRequests_def split_def)

lemmas poll_simps = emit_emits notifyPlayersChange_emits
  updateConnectionStatus_emits enableLocalFallback_eq pollSignals_emits startPollingEnd_eq
  opsObserver_eq docUpdateHandler_emits awaitIceGathering_eq Let_def

lemmas run_simps = poll_simps connectCall_def startSignalPollingCall_def startPollingCall_def
  afterRoomLookup_def afterRetryWait_def announcePresence_def
  onPollResponse_def handleSignal_def sigOffer_def sigAnnounce_def isAnnounce_def
  hasSdpPayload_def handleOffer_def createPeerConnection_def payloadCandidates_def
  getOrEmpty_def ng0_def setupDataChannel_def sendSignal_def onconnectionstatechange_def
  stopPollingIfConnected_def set_add_def onopen_def syncDocument_def readyState_def
  encodeStateAsUpdate_def waitEnd_def gatheredInTime_def beforeWaitEnds_def
  handleDataChannelMessage_def applyUpdate_def docChange_def dispatchAction_def

section \<open>Loss of a peer connection\<close>

lemma localGuestLinked_fields:
  "connectedPeers localGuestLinked = [''host-1'']"
  "peerConnections localGuestLinked = [(''host-1'', 1)]"
  "dataChannels localGuestLinked = [(''host-1'', 5)]"
  "broadcastChannel localGuestLinked"
  "\<not> useLocalFallback localGuestLinked"
  "\<not> docUpdateListener localGuestLinked"
  "\<not> isHost localGuestLinked"
  "pendingTimeouts localGuestLinked = 0"
  "opts localGuestLinked = guestOptions"
  "peerId localGuestLinked = ''guest-2''"
  "player localGuestLinked = player guest0"
  by (simp_all add: localGuestLinked_def guest0_def run_simps)

text \<open>
  Claim C7. When the connection made for peer \<open>r\<close> reports \<^verbatim>\<open>failed\<close> or \<^verbatim>\<open>disconnected\<close>,
  \<open>r\<close> leaves the connected set, the connection table and the data channel table, and
  the presence observers are notified of the roster without \<open>r\<close> (\<^verbatim>\<open>onConnectionChange\<close>
  with the new count, then \<^verbatim>\<open>onPlayersChange\<close>, each when it is set); the trace is only
  extended. If a BroadcastChannel exists and the fallback is off, the fallback is then
  switched on: the provider posts its awareness announcement on the BroadcastChannel,
  a guest sets the 100 ms timer (whose callback posts a state request), the update
  listener is registered (so that a local update is posted on the BroadcastChannel),
  and the observers are notified once more. Otherwise nothing further is done. The
  state afterwards is given in full: no other field changes, and nothing else is added
  to the trace.
\<close>

theorem connection_lost:
  assumes "st = CsFailed \<or> st = CsDisconnected"
  shows "r \<notin> set (connectedPeers (onconnectionstatechange ev r st s))
       \<and> map_of (peerConnections (onconnectionstatechange ev r st s)) r = None
       \<and> map_of (dataChannels (onconnectionstatechange ev r st s)) r = None
       \<and> useLocalFallback (onconnectionstatechange ev r st s) = (useLocalFallback s \<or> broadcastChannel s)
       \<and> take (length (trace s)) (trace (onconnectionstatechange ev r st s)) = trace s
       \<and> rosters (drop (length (trace s)) (trace (onconnectionstatechange ev r st s))) =
           (if o_onPlayersChange (opts s)
            then replicate (if broadcastChannel s \<and> \<not> useLocalFallback s then 2 else 1)
                   (player s # map (placeholder ev) (removeAll r (connectedPeers s)))
            else [])
       \<and> onconnectionstatechange ev r st s =
           (let peers = removeAll r (connectedPeers s);
                status =
                  (if o_onConnectionChange (opts s)
                   then [OnConnectionChange True (length peers + 1)] else []) @
                  (if o_onPlayersChange (opts s)
                   then [OnPlayersChange (player s # map (placeholder ev) peers)] else []);
                activate = (broadcastChannel s \<and> \<not> useLocalFallback s)
            in s\<lparr>connectedPeers := peers,
                 peerConnections := AList.delete r (peerConnections s),
                 dataChannels := AList.delete r (dataChannels s),
                 useLocalFallback := (useLocalFallback s \<or> activate),
                 docUpdateListener := (docUpdateListener s \<or> activate),
                 pendingTimeouts :=
                   (if activate \<and> \<not> isHost s then pendingTimeouts s + 1 else pendingTimeouts s),
                 trace := trace s @ status @
                          (if activate
                           then [BroadcastPost (OutPlayer (player s)) (peerId s)] @
                                (if isHost s then [] else [SetTimeout 100]) @ status
                           else [])\<rparr>)
       \<and> (broadcastChannel s \<and> \<not> useLocalFallback s \<and> \<not> isHost s \<longrightarrow>
            trace (onFallbackTimeout (onconnectionstatechange ev r st s)) =
              trace (onconnectionstatechange ev r st s) @ [BroadcastPost OutStateRequest (peerId s)])
       \<and> (broadcastChannel s \<and> \<not> useLocalFallback s \<longrightarrow>
            trace (docUpdateHandler False u (onconnectionstatechange ev r st s)) =
              trace (onconnectionstatechange ev r st s) @ [BroadcastPost (OutUpdate u) (peerId s)])"
proof -
  let ?s' = "onconnectionstatechange ev r st s"
  have old: "r \<notin> set (connectedPeers ?s')
       \<and> map_of (peerConnections ?s') r = None
       \<and> map_of (dataChannels ?s') r = None
       \<and> useLocalFallback ?s' = (useLocalFallback s \<or> broadcastChannel s)
       \<and> take (length (trace s)) (trace ?s') = trace s
       \<and> rosters (drop (length (trace s)) (trace ?s')) =
           (if o_onPlayersChange (opts s)
            then replicate (if broadcastChannel s \<and> \<not> useLocalFallback s then 2 else 1)
                   (player s # map (placeholder ev) (removeAll r (connectedPeers s)))
            else [])"
    using assms
    by (elim disjE;
      simp add: onconnectionstatechange_def updateConnectionStatus_emits enableLocalFallback_eq
        Let_def set_delete_def AList.delete_conv' numeral_2_eq_2; blast?)
  have eq: "?s' =
           (let peers = removeAll r (connectedPeers s);
                status =
                  (if o_onConnectionChange (opts s)
                   then [OnConnectionChange True (length peers + 1)] else []) @
                  (if o_onPlayersChange (opts s)
                   then [OnPlayersChange (player s # map (placeholder ev) peers)] else []);
                activate = (broadcastChannel s \<and> \<not> useLocalFallback s)
            in s\<lparr>connectedPeers := peers,
                 peerConnections := AList.delete r (peerConnections s),
                 dataChannels := AList.delete r (dataChannels s),
                 useLocalFallback := (useLocalFallback s \<or> activate),
                 docUpdateListener := (docUpdateListener s \<or> activate),
                 pendingTimeouts :=
                   (if activate \<and> \<not> isHost s then pendingTimeouts s + 1 else pendingTimeouts s),
                 trace := trace s @ status @
                          (if activate
                           then [BroadcastPost (OutPlayer (player s)) (peerId s)] @
                                (if isHost s then [] else [SetTimeout 100]) @ status
                           else [])\<rparr>)"
    using assms
    by (cases s)
       (elim disjE;
        simp add: onconnectionstatechange_def updateConnectionStatus_emits enableLocalFallback_eq
          Let_def set_delete_def emits_def; blast?)
  have t: "broadcastChannel s \<and> \<not> useLocalFallback s \<and> \<not> isHost s \<longrightarrow>
            trace (onFallbackTimeout ?s') = trace ?s' @ [BroadcastPost OutStateRequest (peerId s)]"
    using assms
    by (elim disjE;
        simp add: onconnectionstatechange_def updateConnectionStatus_emits enableLocalFallback_eq
          Let_def onFallbackTimeout_def emit_emits)
  have l: "broadcastChannel s \<and> \<not> useLocalFallback s \<longrightarrow>
            trace (docUpdateHandler False u ?s') = trace ?s' @ [BroadcastPost (OutUpdate u) (peerId s)]"
    using assms
    by (elim disjE;
        simp add: onconnectionstatechange_def updateConnectionStatus_emits enableLocalFallback_eq
          Let_def docUpdateHandler_emits)
  show ?thesis using old eq t l by blast
qed

theorem connection_lost_witness:
  "(CsFailed = CsFailed \<or> CsFailed = CsDisconnected)
   \<and> connectedPeers localGuestLinked = [''host-1'']
   \<and> map_of (peerConnections localGuestLinked) ''host-1'' = Some 1
   \<and> map_of (dataChannels localGuestLinked) ''host-1'' = Some 5
   \<and> broadcastChannel localGuestLinked \<and> \<not> useLocalFallback localGuestLinked
   \<and> \<not> isHost localGuestLinked
   \<and> connectedPeers (onconnectionstatechange env0 ''host-1'' CsFailed localGuestLinked) = []
   \<and> peerConnections (onconnectionstatechange env0 ''host-1'' CsFailed localGuestLinked) = []
   \<and> dataChannels (onconnectionstatechange env0 ''host-1'' CsFailed localGuestLinked) = []
   \<and> trace (onconnectionstatechange env0 ''host-1'' CsFailed localGuestLinked) =
       trace localGuestLinked @
         [OnConnectionChange True 1, OnPlayersChange [player guest0],
          BroadcastPost (OutPlayer (player guest0)) ''guest-2'', SetTimeout 100,
          OnConnectionChange True 1, OnPlayersChange [player guest0]]
   \<and> useLocalFallback (onconnectionstatechange env0 ''host-1'' CsFailed localGuestLinked)
   \<and> docUpdateListener (onconnectionstatechange env0 ''host-1'' CsFailed localGuestLinked)
   \<and> pendingTimeouts (onconnectionstatechange env0 ''host-1'' CsFailed localGuestLinked) = 1
   \<and> trace (onFallbackTimeout (onconnectionstatechange env0 ''host-1'' CsFailed localGuestLinked)) =
       trace (onconnectionstatechange env0 ''host-1'' CsFailed localGuestLinked) @
         [BroadcastPost OutStateRequest ''guest-2'']"
proof -
  have h: "CsFailed = CsFailed \<or> CsFailed = CsDisconnected" by simp
  note f = localGuestLinked_fields
  note t = connection_lost [OF h, of "''host-1''" env0 localGuestLinked]
  have e: "onconnectionstatechange env0 ''host-1'' CsFailed localGuestLinked =
             localGuestLinked\<lparr>connectedPeers := [], peerConnections := [], dataChannels := [],
               useLocalFallback := True, docUpdateListener := True, pendingTimeouts := 1,
               trace := trace localGuestLinked @
                 [OnConnectionChange True 1, OnPlayersChange [player guest0],
                  BroadcastPost (OutPlayer (player guest0)) ''guest-2'', SetTimeout 100,
                  OnConnectionChange True 1, OnPlayersChange [player guest0]]\<rparr>"
    using t by (simp add: f Let_def AList.delete_eq)
  have o: "trace (onFallbackTimeout (onconnectionstatechange env0 ''host-1'' CsFailed localGuestLinked)) =
       trace (onconnectionstatechange env0 ''host-1'' CsFailed localGuestLinked) @
         [BroadcastPost OutStateRequest ''guest-2'']"
  proof -
    have "trace (onFallbackTimeout (onconnectionstatechange env0 ''host-1'' CsFailed localGuestLinked)) =
       trace (onconnectionstatechange env0 ''host-1'' CsFailed localGuestLinked) @
         [BroadcastPost OutStateRequest (peerId localGuestLinked)]"
      using t f(4,5,7) by blast
    then show ?thesis by (simp only: f(10))
  qed
  have r: "connectedPeers (onconnectionstatechange env0 ''host-1'' CsFailed localGuestLinked) = []
   \<and> peerConnections (onconnectionstatechange env0 ''host-1'' CsFailed localGuestLinked) = []
   \<and> dataChannels (onconnectionstatechange env0 ''host-1'' CsFailed localGuestLinked) = []
   \<and> trace (onconnectionstatechange env0 ''host-1'' CsFailed localGuestLinked) =
       trace localGuestLinked @
         [OnConnectionChange True 1, OnPlayersChange [player guest0],
          BroadcastPost (OutPlayer (player guest0)) ''guest-2'', SetTimeout 100,
          OnConnectionChange True 1, OnPlayersChange [player guest0]]
   \<and> useLocalFallback (onconnectionstatechange env0 ''host-1'' CsFailed localGuestLinked)
   \<and> docUpdateListener (onconnectionstatechange env0 ''host-1'' CsFailed localGuestLinked)
   \<and> pendingTimeouts (onconnectionstatechange env0 ''host-1'' CsFailed localGuestLinked) = 1"
    by (simp add: e)
  show ?thesis
    using h o r by (simp add: f)
qed

section \<open>Polling after the first connection\<close>

text \<open>
  Claim C6 evaluated on a host on which \<open>connect\<close> is called a second time while the
  room lookup of the first call is pending. \<^verbatim>\<open>this.pollingInterval\<close> is still null then, so
  the guard of \<open>startSignalPolling\<close> lets the second call through; when the two lookups
  have returned, both closures have set an interval (1 and 2) and issued a poll, and
  the field holds the second interval. A guest is then announced and the connection
  with it reports \<^verbatim>\<open>connected\<close>: the stored interval 2 is cleared (the handler's last
  action) and the field is null, but interval 1 is still active, and when it fires
  next a further poll request is issued.
\<close>

theorem interval_survives_connection:
  "trace hostStartedTwice =
     [OnConnectionChange True 1, OnPlayersChange [player host0], RoomLookup,
      OnConnectionChange True 1, OnPlayersChange [player host0], RoomLookup,
      SetInterval 1 2000, PollRequest [],
      SetInterval 2 2000, PollRequest []]
   \<and> pollingInterval hostStartedTwice = Some 2
   \<and> timers hostStartedTwice = [1, 2]
   \<and> connectedPeers hostConnectedTwice = [''guest-2'']
   \<and> last (trace hostConnectedTwice) = ClearInterval 2
   \<and> pollingInterval hostConnectedTwice = None
   \<and> timers hostConnectedTwice = [1]
   \<and> pollRequests (trace hostConnectedTwice) = 2
   \<and> trace (step env0 (IntervalTick 1) hostConnectedTwice) =
       trace hostConnectedTwice @ [PollRequest []]
   \<and> pollRequests (trace (step env0 (IntervalTick 1) hostConnectedTwice)) = 3"
  by (simp add: hostConnectedTwice_def hostStartedTwice_def host0_def run_simps)

text \<open>
  Polling also starts again when \<open>connect\<close> is called after the connection has come up:
  the call finds no interval, sets a new one and polls.
\<close>

lemma guestConnected_fields:
  "pollingInterval guestConnected = None"
  "timers guestConnected = []"
  "\<not> destroyed guestConnected"
  "\<not> localhost guestConnected"
  "\<not> isHost guestConnected"
  "pollRequests (trace guestConnected) = 1"
  by (simp_all add: guestConnected_def guest0_def run_simps)

lemma reconnect_restarts_polling:
  "pollingInterval guestConnected = None
   \<and> pollRequests (trace guestConnected) = 1
   \<and> pollingInterval (step env0 Connect guestConnected) = Some (nextId guestConnected)
   \<and> pollRequests (trace (step env0 Connect guestConnected)) = 2"
  using guestConnected_fields
  by (simp add: run_simps)

section \<open>Delivery of remote operations\<close>

lemma delivered_simps [simp]:
  "delivered [] = []"
  "delivered (e # tr) = (case e of OnAction a \<Rightarrow> [a] | _ \<Rightarrow> []) @ delivered tr"
  "delivered (a @ b) = delivered a @ delivered b"
  by (simp_all add: delivered_def)

lemma delivered_map [simp]:
  "delivered (map (AddIceCandidate pc) cs) = []"
  "delivered (map (\<lambda>(p, pc). ClosePeerConnection pc) xs) = []"
  "delivered (map (\<lambda>(p, ch). ChannelSend ch m) ys) = []"
  "delivered (map OnAction ops) = ops"
  by (simp_all add: delivered_def split_def) (induction ops, simp_all)

text \<open>
  Claim C1 evaluated where a merge places an entry below the watermark. The observer
  reads \<^verbatim>\<open>slice(lastAppliedIndex)\<close>, which holds the new entries only when they were added
  at the end. In the first run the guest has pushed its own entry (watermark 1) when the
  host's concurrent entry is merged in front of it: the slice is the guest's own entry,
  so \<^verbatim>\<open>onAction\<close> is not called for the host's entry, and the watermark moves to 2, past
  it. In the second run the host's entry has been delivered (watermark 1) when the
  entry of a third peer is merged in front of it: the slice is the host's entry, which
  is delivered a second time, and the third peer's entry is not delivered.
\<close>

theorem merge_below_watermark:
  "peerId guest0 = ''guest-2'' \<and> o_onAction (opts guest0)
   \<and> operationsArray guestConcurrentPush = [opByHost, opByGuest]
   \<and> lastAppliedIndex guestConcurrentPush = 2
   \<and> delivered (trace guestConcurrentPush) = []
   \<and> operationsArray guestTwoMerges = [opByThird, opByHost]
   \<and> lastAppliedIndex guestTwoMerges = 2
   \<and> delivered (trace guestTwoMerges) = [opByHost, opByHost]"
  by (simp add: guestConcurrentPush_def guestTwoMerges_def guest0_def run_simps
      opByHost_def opByGuest_def opByThird_def)

text \<open>
  The watermark itself never decreases and never exceeds the length of the array: the
  array only grows, and the observer sets the watermark to its length.
\<close>

lemma length_insertAll [simp]: "length (insertAll ins xs) = length xs + length ins"
  by (induction ins xs rule: insertAll.induct) auto

lemma watermark_docChange: "watermark n s \<Longrightarrow> watermark n (docChange r ins meta s)"
  by (simp add: watermark_def poll_simps docChange_def)

lemma watermark_connectCall: "watermark n s \<Longrightarrow> watermark n (connectCall ev s)"
  by (auto simp: watermark_def poll_simps connectCall_def startSignalPollingCall_def startPollingCall_def
      announcePresence_def split: option.split)

lemma watermark_startPolling:
  "watermark n s \<Longrightarrow> watermark n (afterRoomLookup r s)"
  "watermark n s \<Longrightarrow> watermark n (afterRetryWait i s)"
  by (simp_all add: watermark_def poll_simps afterRoomLookup_def afterRetryWait_def split: lookup_result.split)

lemma watermark_dispatchAction: "watermark n s \<Longrightarrow> watermark n (dispatchAction ev a s)"
  by (simp add: watermark_def poll_simps dispatchAction_def docChange_def encodeStateAsUpdate_def)

lemma watermark_destroy: "watermark n s \<Longrightarrow> watermark n (destroy ev s)"
  by (auto simp: watermark_def poll_simps destroy_def split: option.split)

lemma watermark_createPeerConnection:
  "watermark n s \<Longrightarrow> watermark n (snd (createPeerConnection ng r b s))"
  by (simp add: watermark_def poll_simps createPeerConnection_def setupDataChannel_def sendSignal_def
      split: option.split)

lemma watermark_handleOffer: "watermark n s \<Longrightarrow> watermark n (handleOffer ng sg s)"
  by (simp add: watermark_def poll_simps handleOffer_def createPeerConnection_def sendSignal_def
      split: option.split)

lemma watermark_handleSignal: "watermark n s \<Longrightarrow> watermark n (snd (handleSignal ng sg s))"
  using watermark_createPeerConnection [of n s ng "sig_from sg" True]
        watermark_handleOffer [of n s ng sg]
  by (simp add: handleSignal_def handleAnswer_def handleLegacyIceCandidate_def split_def
      watermark_def poll_simps split: option.split)

lemma watermark_onPollResponse: "watermark n s \<Longrightarrow> watermark n (onPollResponse r s)"
proof (cases r)
  case (PollOk sigs lastSeen)
  assume i: "watermark n s"
  have "watermark n (s\<lparr>lastSeenSignals := (case lastSeen of None \<Rightarrow> [] | Some l \<Rightarrow> l)\<rparr>)"
    using i by (simp add: watermark_def)
  then show ?thesis
    using handleSignals_invariant [of "watermark n", OF watermark_handleSignal]
    by (simp add: onPollResponse_def PollOk)
qed (simp_all add: onPollResponse_def)

lemma watermark_onconnectionstatechange:
  "watermark n s \<Longrightarrow> watermark n (onconnectionstatechange ev p st s)"
  by (auto simp: watermark_def poll_simps onconnectionstatechange_def stopPollingIfConnected_def
      split: option.split)

lemma watermark_channel:
  "watermark n s \<Longrightarrow> watermark n (onopen p ch s)"
  "watermark n s \<Longrightarrow> watermark n (onclose p ch s)"
  "watermark n s \<Longrightarrow> watermark n (setupDataChannel ch p s)"
  "watermark n s \<Longrightarrow> watermark n (onicecandidate p c s)"
  "watermark n s \<Longrightarrow> watermark n (onFallbackTimeout s)"
  by (simp_all add: watermark_def poll_simps onopen_def onclose_def setupDataChannel_def
      onicecandidate_def onFallbackTimeout_def syncDocument_def split: option.split)

lemma watermark_handleDataChannelMessage:
  "watermark n s \<Longrightarrow> watermark n (handleDataChannelMessage ev m p s)"
  using watermark_docChange [of n s False]
  by (simp add: handleDataChannelMessage_def applyUpdate_def watermark_def poll_simps
      split: option.split DataChannelMessage.split update_data.split)

lemma watermark_handleBroadcastMessage:
  "watermark n s \<Longrightarrow> watermark n (handleBroadcastMessage m s)"
  using watermark_docChange [of n s True]
  by (simp add: handleBroadcastMessage_def applyUpdate_def watermark_def poll_simps
      split: option.split DataChannelMessage.split update_data.split)

lemma watermark_broadcastOnMessage:
  "watermark n s \<Longrightarrow> watermark n (broadcastOnMessage ev m s)"
proof -
  assume i: "watermark n s"
  have a: "watermark n
     (if b_msg m = Awareness then
             (case (if str_truthy (b_from m) then b_from m else b_peerId m) of
                None \<Rightarrow> s
              | Some remotePeerId \<Rightarrow>
                  if remotePeerId \<noteq> [] \<and> remotePeerId \<notin> set (connectedPeers s) then
                    let s2 = updateConnectionStatus ev
                               (s\<lparr>connectedPeers := set_add remotePeerId (connectedPeers s)\<rparr>)
                    in if useLocalFallback s2 \<and> broadcastChannel s2
                       then emit (BroadcastPost (OutPlayer (player s2)) (peerId s2)) s2
                       else s2
                  else s)
           else s)" (is "watermark n ?s1")
    using i by (simp add: watermark_def poll_simps split: option.split)
  show ?thesis
    using i a watermark_handleBroadcastMessage [of n ?s1 m]
    by (simp add: broadcastOnMessage_def Let_def)
qed

lemma watermark_step: "watermark n s \<Longrightarrow> watermark n (step ev e s)"
proof (cases e)
  case (UpdateAwareness u)
  assume "watermark n s"
  then show ?thesis by (simp add: UpdateAwareness updateAwareness_def watermark_def)
next
  case (SetMeta k v)
  assume "watermark n s"
  then show ?thesis by (simp add: SetMeta setMeta_def watermark_docChange)
next
  case (UpdateGameState v)
  assume "watermark n s"
  then show ?thesis by (simp add: UpdateGameState updateGameState_def watermark_def)
next
  case AwarenessChange
  assume "watermark n s"
  then show ?thesis by (simp add: AwarenessChange watermark_def poll_simps)
next
  case (IntervalTick i)
  assume "watermark n s"
  then show ?thesis by (simp add: IntervalTick watermark_def poll_simps)
next
  case (ChannelStateChanged ch st)
  assume "watermark n s"
  then show ?thesis by (simp add: ChannelStateChanged watermark_def)
qed (simp_all add: watermark_connectCall watermark_startPolling watermark_dispatchAction watermark_destroy
      watermark_onPollResponse watermark_onconnectionstatechange watermark_channel
      watermark_handleDataChannelMessage watermark_broadcastOnMessage)

lemma run_append: "run (es @ later) s = run later (run es s)"
  by (induction es arbitrary: s) auto

lemma watermark_monotone:
  "lastAppliedIndex (run es (constructor ev0 pid lh options))
     \<le> lastAppliedIndex (run (es @ later) (constructor ev0 pid lh options))
   \<and> lastAppliedIndex (run es (constructor ev0 pid lh options))
     \<le> length (operationsArray (run es (constructor ev0 pid lh options)))"
proof -
  let ?s = "run es (constructor ev0 pid lh options)"
  have "watermark 0 (constructor ev0 pid lh options)" by (simp add: watermark_def)
  then have a: "watermark 0 ?s"
    using run_invariant [of "watermark 0", OF watermark_step] by blast
  then have "watermark (lastAppliedIndex ?s) ?s" by (simp add: watermark_def)
  then have "watermark (lastAppliedIndex ?s) (run later ?s)"
    using run_invariant [of "watermark (lastAppliedIndex ?s)", OF watermark_step] by blast
  then show ?thesis using a by (simp add: watermark_def run_append)
qed

section \<open>The cached snapshot\<close>

text \<open>
  Claim C8, as stated, fails: \<open>updateGameState\<close> has no host check, and on a guest it
  replaces the cached snapshot all the same.
\<close>

theorem snapshot_stored_by_guest:
  "\<not> isHost guest0 \<and> initialGameState guest0 = JNull
   \<and> initialGameState (updateGameState (JObj 1) guest0) = JObj 1"
  by (simp add: guest0_def updateGameState_def)

lemma hostIs_docChange: "hostIs h s \<Longrightarrow> hostIs h (docChange r ins meta s)"
  by (simp add: hostIs_def poll_simps docChange_def)

lemma hostIs_connectCall: "hostIs h s \<Longrightarrow> hostIs h (connectCall ev s)"
  by (auto simp: hostIs_def poll_simps connectCall_def startSignalPollingCall_def startPollingCall_def
      announcePresence_def split: option.split)

lemma hostIs_startPolling:
  "hostIs h s \<Longrightarrow> hostIs h (afterRoomLookup r s)"
  "hostIs h s \<Longrightarrow> hostIs h (afterRetryWait i s)"
  by (simp_all add: hostIs_def poll_simps afterRoomLookup_def afterRetryWait_def split: lookup_result.split)

lemma hostIs_dispatchAction: "hostIs h s \<Longrightarrow> hostIs h (dispatchAction ev a s)"
  by (simp add: hostIs_def poll_simps dispatchAction_def docChange_def encodeStateAsUpdate_def)

lemma hostIs_destroy: "hostIs h s \<Longrightarrow> hostIs h (destroy ev s)"
  by (auto simp: hostIs_def poll_simps destroy_def split: option.split)

lemma hostIs_createPeerConnection:
  "hostIs h s \<Longrightarrow> hostIs h (snd (createPeerConnection ng r b s))"
  by (simp add: hostIs_def poll_simps createPeerConnection_def setupDataChannel_def sendSignal_def
      split: option.split)

lemma hostIs_handleOffer: "hostIs h s \<Longrightarrow> hostIs h (handleOffer ng sg s)"
  by (simp add: hostIs_def poll_simps handleOffer_def createPeerConnection_def sendSignal_def
      split: option.split)

lemma hostIs_handleSignal: "hostIs h s \<Longrightarrow> hostIs h (snd (handleSignal ng sg s))"
  using hostIs_createPeerConnection [of h s ng "sig_from sg" True]
        hostIs_handleOffer [of h s ng sg]
  by (simp add: handleSignal_def handleAnswer_def handleLegacyIceCandidate_def split_def
      hostIs_def poll_simps split: option.split)

lemma hostIs_onPollResponse: "hostIs h s \<Longrightarrow> hostIs h (onPollResponse r s)"
proof (cases r)
  case (PollOk sigs lastSeen)
  assume i: "hostIs h s"
  have "hostIs h (s\<lparr>lastSeenSignals := (case lastSeen of None \<Rightarrow> [] | Some l \<Rightarrow> l)\<rparr>)"
    using i by (simp add: hostIs_def)
  then show ?thesis
    using handleSignals_invariant [of "hostIs h", OF hostIs_handleSignal]
    by (simp add: onPollResponse_def PollOk)
qed (simp_all add: onPollResponse_def)

lemma hostIs_onconnectionstatechange:
  "hostIs h s \<Longrightarrow> hostIs h (onconnectionstatechange ev p st s)"
  by (auto simp: hostIs_def poll_simps onconnectionstatechange_def stopPollingIfConnected_def
      split: option.split)

lemma hostIs_channel:
  "hostIs h s \<Longrightarrow> hostIs h (onopen p ch s)"
  "hostIs h s \<Longrightarrow> hostIs h (onclose p ch s)"
  "hostIs h s \<Longrightarrow> hostIs h (setupDataChannel ch p s)"
  "hostIs h s \<Longrightarrow> hostIs h (onicecandidate p c s)"
  "hostIs h s \<Longrightarrow> hostIs h (onFallbackTimeout s)"
  by (simp_all add: hostIs_def poll_simps onopen_def onclose_def setupDataChannel_def
      onicecandidate_def onFallbackTimeout_def syncDocument_def split: option.split)

lemma hostIs_handleDataChannelMessage:
  "hostIs h s \<Longrightarrow> hostIs h (handleDataChannelMessage ev m p s)"
  using hostIs_docChange [of h s False]
  by (simp add: handleDataChannelMessage_def applyUpdate_def hostIs_def poll_simps
      split: option.split DataChannelMessage.split update_data.split)

lemma hostIs_handleBroadcastMessage:
  "hostIs h s \<Longrightarrow> hostIs h (handleBroadcastMessage m s)"
  using hostIs_docChange [of h s True]
  by (simp add: handleBroadcastMessage_def applyUpdate_def hostIs_def poll_simps
      split: option.split DataChannelMessage.split update_data.split)

lemma hostIs_broadcastOnMessage:
  "hostIs h s \<Longrightarrow> hostIs h (broadcastOnMessage ev m s)"
proof -
  assume i: "hostIs h s"
  have a: "hostIs h
     (if b_msg m = Awareness then
             (case (if str_truthy (b_from m) then b_from m else b_peerId m) of
                None \<Rightarrow> s
              | Some remotePeerId \<Rightarrow>
                  if remotePeerId \<noteq> [] \<and> remotePeerId \<notin> set (connectedPeers s) then
                    let s2 = updateConnectionStatus ev
                               (s\<lparr>connectedPeers := set_add remotePeerId (connectedPeers s)\<rparr>)
                    in if useLocalFallback s2 \<and> broadcastChannel s2
                       then emit (BroadcastPost (OutPlayer (player s2)) (peerId s2)) s2
                       else s2
                  else s)
           else s)" (is "hostIs h ?s1")
    using i by (simp add: hostIs_def poll_simps split: option.split)
  show ?thesis
    using i a hostIs_handleBroadcastMessage [of h ?s1 m]
    by (simp add: broadcastOnMessage_def Let_def)
qed

lemma hostIs_step: "hostIs h s \<Longrightarrow> hostIs h (step ev e s)"
proof (cases e)
  case (UpdateAwareness u)
  assume "hostIs h s"
  then show ?thesis by (simp add: UpdateAwareness updateAwareness_def hostIs_def)
next
  case (SetMeta k v)
  assume "hostIs h s"
  then show ?thesis by (simp add: SetMeta setMeta_def hostIs_docChange)
next
  case (UpdateGameState v)
  assume "hostIs h s"
  then show ?thesis by (simp add: UpdateGameState updateGameState_def hostIs_def)
next
  case AwarenessChange
  assume "hostIs h s"
  then show ?thesis by (simp add: AwarenessChange hostIs_def poll_simps)
next
  case (IntervalTick i)
  assume "hostIs h s"
  then show ?thesis by (simp add: IntervalTick hostIs_def poll_simps)
next
  case (ChannelStateChanged ch st)
  assume "hostIs h s"
  then show ?thesis by (simp add: ChannelStateChanged hostIs_def)
qed (simp_all add: hostIs_connectCall hostIs_startPolling hostIs_dispatchAction hostIs_destroy
      hostIs_onPollResponse hostIs_onconnectionstatechange hostIs_channel
      hostIs_handleDataChannelMessage hostIs_broadcastOnMessage)

lemma isHost_handleSignal [simp]: "isHost (snd (handleSignal ng sg s)) = isHost s"
  using hostIs_handleSignal [of "isHost s" s ng sg] by (simp add: hostIs_def)

lemma isHost_step [simp]: "isHost (step ev e s) = isHost s"
  using hostIs_step [of "isHost s" s ev e] by (simp add: hostIs_def)

lemma isHost_createPeerConnection [simp]: "isHost (snd (createPeerConnection ng r b s)) = isHost s"
  using hostIs_createPeerConnection [of "isHost s" s ng r b] by (simp add: hostIs_def)

lemma snapshot_update_out:
  "operationsArray_update g0 (s\<lparr>initialGameState := w\<rparr>) = (operationsArray_update g0 s)\<lparr>initialGameState := w\<rparr>"
  "metaMap_update g1 (s\<lparr>initialGameState := w\<rparr>) = (metaMap_update g1 s)\<lparr>initialGameState := w\<rparr>"
  "awareness_update g2 (s\<lparr>initialGameState := w\<rparr>) = (awareness_update g2 s)\<lparr>initialGameState := w\<rparr>"
  "roomCode_update g3 (s\<lparr>initialGameState := w\<rparr>) = (roomCode_update g3 s)\<lparr>initialGameState := w\<rparr>"
  "peerId_update g4 (s\<lparr>initialGameState := w\<rparr>) = (peerId_update g4 s)\<lparr>initialGameState := w\<rparr>"
  "isHost_update g5 (s\<lparr>initialGameState := w\<rparr>) = (isHost_update g5 s)\<lparr>initialGameState := w\<rparr>"
  "player_update g6 (s\<lparr>initialGameState := w\<rparr>) = (player_update g6 s)\<lparr>initialGameState := w\<rparr>"
  "opts_update g7 (s\<lparr>initialGameState := w\<rparr>) = (opts_update g7 s)\<lparr>initialGameState := w\<rparr>"
  "lastAppliedIndex_update g8 (s\<lparr>initialGameState := w\<rparr>) = (lastAppliedIndex_update g8 s)\<lparr>initialGameState := w\<rparr>"
  "destroyed_update g9 (s\<lparr>initialGameState := w\<rparr>) = (destroyed_update g9 s)\<lparr>initialGameState := w\<rparr>"
  "peerConnections_update g10 (s\<lparr>initialGameState := w\<rparr>) = (peerConnections_update g10 s)\<lparr>initialGameState := w\<rparr>"
  "dataChannels_update g11 (s\<lparr>initialGameState := w\<rparr>) = (dataChannels_update g11 s)\<lparr>initialGameState := w\<rparr>"
  "pollingInterval_update g12 (s\<lparr>initialGameState := w\<rparr>) = (pollingInterval_update g12 s)\<lparr>initialGameState := w\<rparr>"
  "lastSeenSignals_update g13 (s\<lparr>initialGameState := w\<rparr>) = (lastSeenSignals_update g13 s)\<lparr>initialGameState := w\<rparr>"
  "connectedPeers_update g14 (s\<lparr>initialGameState := w\<rparr>) = (connectedPeers_update g14 s)\<lparr>initialGameState := w\<rparr>"
  "pendingIceCandidates_update g15 (s\<lparr>initialGameState := w\<rparr>) = (pendingIceCandidates_update g15 s)\<lparr>initialGameState := w\<rparr>"
  "outgoingIceCandidates_update g16 (s\<lparr>initialGameState := w\<rparr>) = (outgoingIceCandidates_update g16 s)\<lparr>initialGameState := w\<rparr>"
  "broadcastChannel_update g17 (s\<lparr>initialGameState := w\<rparr>) = (broadcastChannel_update g17 s)\<lparr>initialGameState := w\<rparr>"
  "useLocalFallback_update g18 (s\<lparr>initialGameState := w\<rparr>) = (useLocalFallback_update g18 s)\<lparr>initialGameState := w\<rparr>"
  "docUpdateListener_update g19 (s\<lparr>initialGameState := w\<rparr>) = (docUpdateListener_update g19 s)\<lparr>initialGameState := w\<rparr>"
  "channelState_update g20 (s\<lparr>initialGameState := w\<rparr>) = (channelState_update g20 s)\<lparr>initialGameState := w\<rparr>"
  "timers_update g21 (s\<lparr>initialGameState := w\<rparr>) = (timers_update g21 s)\<lparr>initialGameState := w\<rparr>"
  "pendingTimeouts_update g22 (s\<lparr>initialGameState := w\<rparr>) = (pendingTimeouts_update g22 s)\<lparr>initialGameState := w\<rparr>"
  "nextId_update g23 (s\<lparr>initialGameState := w\<rparr>) = (nextId_update g23 s)\<lparr>initialGameState := w\<rparr>"
  "localhost_update g24 (s\<lparr>initialGameState := w\<rparr>) = (localhost_update g24 s)\<lparr>initialGameState := w\<rparr>"
  "trace_update g25 (s\<lparr>initialGameState := w\<rparr>) = (trace_update g25 s)\<lparr>initialGameState := w\<rparr>"
  by (cases s, simp)+


named_theorems comm

lemma if_snapshot [comm]:
  "(if c then a\<lparr>initialGameState := w\<rparr> else b\<lparr>initialGameState := w\<rparr>) =
     (if c then a else b)\<lparr>initialGameState := (w::js_value)\<rparr>"
  by simp

lemma case_option_snapshot [comm]:
  "(case x of None \<Rightarrow> a\<lparr>initialGameState := w\<rparr> | Some y \<Rightarrow> (f y)\<lparr>initialGameState := w\<rparr>) =
     (case x of None \<Rightarrow> a | Some y \<Rightarrow> f y)\<lparr>initialGameState := (w::js_value)\<rparr>"
  by (cases x) simp_all

lemma comm_emit [comm]:
  "emit e (s\<lparr>initialGameState := w\<rparr>) = (emit e s)\<lparr>initialGameState := w\<rparr>"
  by (simp add: emit_emits)

lemma comm_notifyPlayersChange [comm]:
  "notifyPlayersChange ev (s\<lparr>initialGameState := w\<rparr>) =
     (notifyPlayersChange ev s)\<lparr>initialGameState := w\<rparr>"
  by (simp add: notifyPlayersChange_emits)

lemma comm_updateConnectionStatus [comm]:
  "updateConnectionStatus ev (s\<lparr>initialGameState := w\<rparr>) =
     (updateConnectionStatus ev s)\<lparr>initialGameState := w\<rparr>"
  by (simp add: updateConnectionStatus_emits)

lemma comm_enableLocalFallback [comm]:
  "enableLocalFallback ev (s\<lparr>initialGameState := w\<rparr>) =
     (enableLocalFallback ev s)\<lparr>initialGameState := w\<rparr>"
  by (simp add: enableLocalFallback_eq snapshot_update_out)

lemma comm_pollSignals [comm]:
  "pollSignals (s\<lparr>initialGameState := w\<rparr>) = (pollSignals s)\<lparr>initialGameState := w\<rparr>"
  by (simp add: pollSignals_emits)

lemma comm_startPollingEnd [comm]:
  "startPollingEnd (s\<lparr>initialGameState := w\<rparr>) = (startPollingEnd s)\<lparr>initialGameState := w\<rparr>"
  by (simp add: startPollingEnd_eq snapshot_update_out)

lemma comm_startPolling [comm]:
  "startPollingCall (s\<lparr>initialGameState := w\<rparr>) = (startPollingCall s)\<lparr>initialGameState := w\<rparr>"
  "afterRoomLookup r (s\<lparr>initialGameState := w\<rparr>) = (afterRoomLookup r s)\<lparr>initialGameState := w\<rparr>"
  "afterRetryWait i (s\<lparr>initialGameState := w\<rparr>) = (afterRetryWait i s)\<lparr>initialGameState := w\<rparr>"
  by (cases r; simp add: startPollingCall_def afterRoomLookup_def afterRetryWait_def comm Let_def)+

lemma comm_startSignalPollingCall [comm]:
  "startSignalPollingCall (s\<lparr>initialGameState := w\<rparr>) =
     (startSignalPollingCall s)\<lparr>initialGameState := w\<rparr>"
  by (cases "pollingInterval s") (simp_all add: startSignalPollingCall_def comm)

lemma comm_announcePresence [comm]:
  "announcePresence (s\<lparr>initialGameState := w\<rparr>) = (announcePresence s)\<lparr>initialGameState := w\<rparr>"
  by (simp add: announcePresence_def comm)

lemma comm_connectCall [comm]:
  "connectCall ev (s\<lparr>initialGameState := w\<rparr>) = (connectCall ev s)\<lparr>initialGameState := w\<rparr>"
  by (simp add: connectCall_def comm Let_def)


lemma readyState_snapshot [comm]:
  "readyState (s\<lparr>initialGameState := w\<rparr>) ch = readyState s ch"
  "encodeStateAsUpdate (s\<lparr>initialGameState := w\<rparr>) = encodeStateAsUpdate s"
  by (simp_all add: readyState_def encodeStateAsUpdate_def)

lemma comm_docChange [comm]:
  "docChange r ins meta (s\<lparr>initialGameState := w\<rparr>) =
     (docChange r ins meta s)\<lparr>initialGameState := w\<rparr>"
  by (simp add: docChange_def opsObserver_eq docUpdateHandler_emits Let_def snapshot_update_out)

lemma comm_dispatchAction [comm]:
  "dispatchAction ev a (s\<lparr>initialGameState := w\<rparr>) =
     (dispatchAction ev a s)\<lparr>initialGameState := w\<rparr>"
  by (simp add: dispatchAction_def comm Let_def)

lemma comm_updateAwareness [comm]:
  "updateAwareness u (s\<lparr>initialGameState := w\<rparr>) = (updateAwareness u s)\<lparr>initialGameState := w\<rparr>"
  by (simp add: updateAwareness_def comm snapshot_update_out)

lemma comm_setMeta [comm]:
  "setMeta k v (s\<lparr>initialGameState := w\<rparr>) = (setMeta k v s)\<lparr>initialGameState := w\<rparr>"
  by (simp add: setMeta_def comm)

lemma comm_destroy [comm]:
  "destroy ev (s\<lparr>initialGameState := w\<rparr>) = (destroy ev s)\<lparr>initialGameState := w\<rparr>"
  by (simp add: destroy_def emit_emits notifyPlayersChange_emits Let_def snapshot_update_out
      split: option.split)

lemma comm_sendSignal [comm]:
  "sendSignal ty p to (s\<lparr>initialGameState := w\<rparr>) = (sendSignal ty p to s)\<lparr>initialGameState := w\<rparr>"
  by (simp add: sendSignal_def comm)

lemma comm_awaitIceGathering [comm]:
  "awaitIceGathering ng r (s\<lparr>initialGameState := w\<rparr>) =
     (awaitIceGathering ng r s)\<lparr>initialGameState := w\<rparr>"
  by (simp add: awaitIceGathering_eq snapshot_update_out)

lemma comm_setupDataChannel [comm]:
  "setupDataChannel ch p (s\<lparr>initialGameState := w\<rparr>) =
     (setupDataChannel ch p s)\<lparr>initialGameState := w\<rparr>"
  by (simp add: setupDataChannel_def snapshot_update_out)

lemma comm_createPeerConnection [comm]:
  "createPeerConnection ng r b (s\<lparr>initialGameState := w\<rparr>) =
     (fst (createPeerConnection ng r b s),
      (snd (createPeerConnection ng r b s))\<lparr>initialGameState := w\<rparr>)"
  by (cases "map_of (peerConnections s) r"; cases "localDescription ng")
     (simp_all add: createPeerConnection_def comm Let_def snapshot_update_out)

lemma comm_handleOffer [comm]:
  "handleOffer ng sg (s\<lparr>initialGameState := w\<rparr>) =
     (handleOffer ng sg s)\<lparr>initialGameState := w\<rparr>"
proof -
  obtain r s1 where c: "createPeerConnection ng (sig_from sg) False s = (r, s1)"
    by (cases "createPeerConnection ng (sig_from sg) False s")
  show ?thesis
    by (cases r; cases "localDescription ng")
       (simp_all add: handleOffer_def comm c Let_def snapshot_update_out emits_def)
qed

lemma comm_handleAnswer [comm]:
  "handleAnswer ng sg (s\<lparr>initialGameState := w\<rparr>) =
     (fst (handleAnswer ng sg s), (snd (handleAnswer ng sg s))\<lparr>initialGameState := w\<rparr>)"
  by (cases "map_of (peerConnections s) (sig_from sg)")
     (simp_all add: handleAnswer_def comm Let_def)

lemma comm_handleLegacyIceCandidate [comm]:
  "handleLegacyIceCandidate sg (s\<lparr>initialGameState := w\<rparr>) =
     (handleLegacyIceCandidate sg s)\<lparr>initialGameState := w\<rparr>"
  by (cases "map_of (peerConnections s) (sig_from sg)")
     (simp_all add: handleLegacyIceCandidate_def comm Let_def snapshot_update_out)

lemma comm_handleSignal [comm]:
  "handleSignal ng sg (s\<lparr>initialGameState := w\<rparr>) =
     (fst (handleSignal ng sg s), (snd (handleSignal ng sg s))\<lparr>initialGameState := w\<rparr>)"
  by (simp add: handleSignal_def comm split_def)

lemma comm_handleSignals [comm]:
  "handleSignals sigs (s\<lparr>initialGameState := w\<rparr>) =
     (handleSignals sigs s)\<lparr>initialGameState := w\<rparr>"
proof (induction sigs arbitrary: s)
  case Nil
  then show ?case by simp
next
  case (Cons a sigs)
  obtain sg ng where a: "a = (sg, ng)" by (cases a)
  obtain ok s1 where h: "handleSignal ng sg s = (ok, s1)" by (cases "handleSignal ng sg s")
  show ?case
    by (cases ok) (simp_all add: a comm_handleSignal h Cons)
qed

lemma comm_onPollResponse [comm]:
  "onPollResponse r (s\<lparr>initialGameState := w\<rparr>) = (onPollResponse r s)\<lparr>initialGameState := w\<rparr>"
  by (cases r) (simp_all add: onPollResponse_def comm snapshot_update_out)

lemma comm_stopPollingIfConnected [comm]:
  "stopPollingIfConnected (s\<lparr>initialGameState := w\<rparr>) =
     (stopPollingIfConnected s)\<lparr>initialGameState := w\<rparr>"
  by (cases "pollingInterval s")
     (simp_all add: stopPollingIfConnected_def comm snapshot_update_out)

lemma comm_onconnectionstatechange [comm]:
  "onconnectionstatechange ev p st (s\<lparr>initialGameState := w\<rparr>) =
     (onconnectionstatechange ev p st s)\<lparr>initialGameState := w\<rparr>"
  by (simp add: onconnectionstatechange_def comm snapshot_update_out Let_def)

lemma comm_syncDocument [comm]:
  "syncDocument p (s\<lparr>initialGameState := w\<rparr>) = (syncDocument p s)\<lparr>initialGameState := w\<rparr>"
  by (cases "map_of (dataChannels s) p"; cases "awareness s")
     (simp_all add: syncDocument_def emit_emits readyState_snapshot Let_def)

lemma comm_channel [comm]:
  "onopen p ch (s\<lparr>initialGameState := w\<rparr>) = (onopen p ch s)\<lparr>initialGameState := w\<rparr>"
  "onclose p ch (s\<lparr>initialGameState := w\<rparr>) = (onclose p ch s)\<lparr>initialGameState := w\<rparr>"
  "onicecandidate p c (s\<lparr>initialGameState := w\<rparr>) =
     (onicecandidate p c s)\<lparr>initialGameState := w\<rparr>"
  "onFallbackTimeout (s\<lparr>initialGameState := w\<rparr>) = (onFallbackTimeout s)\<lparr>initialGameState := w\<rparr>"
  by (cases c; simp add: onopen_def onclose_def onicecandidate_def
      onFallbackTimeout_def comm snapshot_update_out Let_def)+


lemma comm_applyUpdate [comm]:
  "applyUpdate r d (s\<lparr>initialGameState := w\<rparr>) = (applyUpdate r d s)\<lparr>initialGameState := w\<rparr>"
  by (cases d) (simp_all add: applyUpdate_def comm)

lemma comm_handleDataChannelMessage:
  "\<not> isHost s \<Longrightarrow>
     handleDataChannelMessage ev m p (s\<lparr>initialGameState := w\<rparr>) =
       (handleDataChannelMessage ev m p s)\<lparr>initialGameState := w\<rparr>"
proof (cases m)
  case None
  then show ?thesis by (simp add: handleDataChannelMessage_def)
next
  case (Some msg)
  assume "\<not> isHost s"
  then show ?thesis
    by (cases msg) (simp_all add: Some handleDataChannelMessage_def comm)
qed

lemma comm_handleBroadcastMessage:
  "\<not> isHost s \<Longrightarrow>
     handleBroadcastMessage m (s\<lparr>initialGameState := w\<rparr>) =
       (handleBroadcastMessage m s)\<lparr>initialGameState := w\<rparr>"
  by (cases "b_msg m") (simp_all add: handleBroadcastMessage_def comm)

lemma isHost_updateConnectionStatus [simp]:
  "isHost (updateConnectionStatus ev s) = isHost s"
  by (simp add: updateConnectionStatus_emits)

lemma comm_broadcastOnMessage:
  assumes "\<not> isHost s"
  shows "broadcastOnMessage ev m (s\<lparr>initialGameState := w\<rparr>) =
           (broadcastOnMessage ev m s)\<lparr>initialGameState := w\<rparr>"
proof -
  let ?f = "\<lambda>s. (if b_msg m = Awareness then
             (case (if str_truthy (b_from m) then b_from m else b_peerId m) of
                None \<Rightarrow> s
              | Some remotePeerId \<Rightarrow>
                  if remotePeerId \<noteq> [] \<and> remotePeerId \<notin> set (connectedPeers s) then
                    let s2 = updateConnectionStatus ev
                               (s\<lparr>connectedPeers := set_add remotePeerId (connectedPeers s)\<rparr>)
                    in if useLocalFallback s2 \<and> broadcastChannel s2
                       then emit (BroadcastPost (OutPlayer (player s2)) (peerId s2)) s2
                       else s2
                  else s)
           else s)"
  have a: "?f (s\<lparr>initialGameState := w\<rparr>) = (?f s)\<lparr>initialGameState := w\<rparr>"
    by (cases "if str_truthy (b_from m) then b_from m else b_peerId m")
       (simp_all add: comm snapshot_update_out Let_def)
  have h: "\<not> isHost (?f s)"
    using assms
    by (cases "if str_truthy (b_from m) then b_from m else b_peerId m")
       (simp_all add: Let_def emit_emits)
  have b: "handleBroadcastMessage m ((?f s)\<lparr>initialGameState := w\<rparr>) =
             (handleBroadcastMessage m (?f s))\<lparr>initialGameState := w\<rparr>"
    by (rule comm_handleBroadcastMessage [OF h])
  have d: "broadcastOnMessage ev m t =
             (if b_from m = Some (peerId t) \<or> b_peerId m = Some (peerId t) then t
              else if isStateMessage (b_msg m) \<or> useLocalFallback (?f t)
                   then handleBroadcastMessage m (?f t) else ?f t)" for t
    by (simp add: broadcastOnMessage_def Let_def)
  have u: "useLocalFallback ((?f s)\<lparr>initialGameState := w\<rparr>) = useLocalFallback (?f s)"
    by simp
  show ?thesis
    unfolding d [of "s\<lparr>initialGameState := w\<rparr>"] d [of s] a b u by simp
qed

lemma comm_step:
  assumes "\<not> isHost s"
  shows "\<exists>w'. step ev e (s\<lparr>initialGameState := w\<rparr>) = (step ev e s)\<lparr>initialGameState := w'\<rparr>"
proof (cases e)
  case (UpdateGameState v)
  have "step ev e (s\<lparr>initialGameState := w\<rparr>) = (step ev e s)\<lparr>initialGameState := v\<rparr>"
    by (simp add: UpdateGameState updateGameState_def)
  then show ?thesis by blast
next
  case (ChannelMessage p msg)
  then show ?thesis using comm_handleDataChannelMessage [OF assms] by auto
next
  case (BroadcastReceived msg)
  then show ?thesis using comm_broadcastOnMessage [OF assms] by auto
next
  case (ChannelStateChanged ch st)
  then show ?thesis by (auto simp: snapshot_update_out)
next
  case (IntervalTick i)
  then show ?thesis by (auto simp: comm)
qed (auto simp: comm)


lemma comm_run:
  "\<not> isHost s \<Longrightarrow>
     \<exists>w'. run es (s\<lparr>initialGameState := w\<rparr>) = (run es s)\<lparr>initialGameState := w'\<rparr>"
proof (induction es arbitrary: s w)
  case Nil
  then show ?case by auto
next
  case (Cons a es)
  obtain ev e where a: "a = (ev, e)" by (cases a)
  obtain w1 where s1: "step ev e (s\<lparr>initialGameState := w\<rparr>) =
                         (step ev e s)\<lparr>initialGameState := w1\<rparr>"
    using comm_step [OF Cons.prems] by blast
  have h: "\<not> isHost (step ev e s)" using Cons.prems by simp
  show ?case
    using Cons.IH [OF h, of w1] by (simp add: a s1)
qed

lemma hostWithGuest_fields:
  "isHost hostWithGuest"
  "\<not> truthy (initialGameState hostWithGuest)"
  "map_of (dataChannels hostWithGuest) ''guest-2'' = Some 2"
  "readyState hostWithGuest 2 = Open"
  by (simp_all add: hostWithGuest_def host0_def poll_simps
      onPollResponse_def handleSignal_def sigAnnounce_def isAnnounce_def
      createPeerConnection_def setupDataChannel_def getOrEmpty_def ng0_def
      sendSignal_def onconnectionstatechange_def stopPollingIfConnected_def set_add_def
      onopen_def syncDocument_def readyState_def encodeStateAsUpdate_def
      waitEnd_def gatheredInTime_def beforeWaitEnds_def)


text \<open>
  Claim C8, amended. \<open>updateGameState v\<close> stores \<open>v\<close> as the cached snapshot of any
  provider, host or not, and changes no other field. For a provider that is not the
  host the call cannot be observed: after any sequence of later events the trace is the
  same as without the call, and so is the whole state apart from the cached snapshot.
  For a host it replaces what is sent to joiners: a state request from a peer with an
  open channel is then answered with \<open>v\<close> (when \<open>v\<close> is truthy).
\<close>

theorem snapshot_update_frame:
  "initialGameState (updateGameState v s) = v
   \<and> (updateGameState v s)\<lparr>initialGameState := initialGameState s\<rparr> = s
   \<and> (\<not> isHost s \<longrightarrow>
         trace (run es (updateGameState v s)) = trace (run es s)
       \<and> (run es (updateGameState v s))\<lparr>initialGameState := w\<rparr> =
           (run es s)\<lparr>initialGameState := w\<rparr>)
   \<and> (isHost s \<and> truthy v \<and> map_of (dataChannels s) r = Some ch \<and> readyState s ch = Open \<longrightarrow>
         trace (handleDataChannelMessage ev (Some StateRequest) r (updateGameState v s)) =
           trace s @ [ChannelSend ch (OutStateSync v)])"
proof (intro conjI impI)
  show "initialGameState (updateGameState v s) = v" by (simp add: updateGameState_def)
  show "(updateGameState v s)\<lparr>initialGameState := initialGameState s\<rparr> = s"
    by (simp add: updateGameState_def)
next
  assume h: "\<not> isHost s"
  obtain w' where r: "run es (updateGameState v s) = (run es s)\<lparr>initialGameState := w'\<rparr>"
    using comm_run [OF h, of es v] unfolding updateGameState_def by blast
  show "trace (run es (updateGameState v s)) = trace (run es s)" by (simp add: r)
  show "(run es (updateGameState v s))\<lparr>initialGameState := w\<rparr> =
          (run es s)\<lparr>initialGameState := w\<rparr>"
    by (simp add: r)
next
  assume "isHost s \<and> truthy v \<and> map_of (dataChannels s) r = Some ch \<and> readyState s ch = Open"
  then show "trace (handleDataChannelMessage ev (Some StateRequest) r (updateGameState v s)) =
               trace s @ [ChannelSend ch (OutStateSync v)]"
    by (simp add: handleDataChannelMessage_def updateGameState_def emit_emits readyState_def)
qed

theorem snapshot_update_frame_witness:
  "\<not> isHost guest0
   \<and> trace (run [(env0, ChannelMessage ''host-1'' (Some StateRequest)), (env0, AwarenessChange)]
               (updateGameState (JObj 1) guest0)) =
       trace (run [(env0, ChannelMessage ''host-1'' (Some StateRequest)), (env0, AwarenessChange)]
               guest0)
   \<and> (isHost hostWithGuest \<and> truthy (JObj 1)
        \<and> map_of (dataChannels hostWithGuest) ''guest-2'' = Some 2
        \<and> readyState hostWithGuest 2 = Open)
   \<and> trace (handleDataChannelMessage env0 (Some StateRequest) ''guest-2''
              (updateGameState (JObj 1) hostWithGuest)) =
       trace hostWithGuest @ [ChannelSend 2 (OutStateSync (JObj 1))]"
proof -
  have g: "\<not> isHost guest0" by (simp add: guest0_def)
  have h: "isHost hostWithGuest \<and> truthy (JObj 1)
        \<and> map_of (dataChannels hostWithGuest) ''guest-2'' = Some 2
        \<and> readyState hostWithGuest 2 = Open"
    using hostWithGuest_fields by simp
  have a: "trace (run [(env0, ChannelMessage ''host-1'' (Some StateRequest)), (env0, AwarenessChange)]
               (updateGameState (JObj 1) guest0)) =
       trace (run [(env0, ChannelMessage ''host-1'' (Some StateRequest)), (env0, AwarenessChange)]
               guest0)"
    using snapshot_update_frame [of "JObj 1" guest0] g by blast
  have b: "trace (handleDataChannelMessage env0 (Some StateRequest) ''guest-2''
              (updateGameState (JObj 1) hostWithGuest)) =
       trace hostWithGuest @ [ChannelSend 2 (OutStateSync (JObj 1))]"
    using snapshot_update_frame [of "JObj 1" hostWithGuest] h by blast
  show ?thesis using g h a b by blast
qed



section \<open>After destroy\<close>

lemma destroy_fields:
  "destroyed (destroy ev s)"
  "metaMap (destroy ev s) = metaMap s"
  "initialGameState (destroy ev s) = initialGameState s"
  by (simp_all add: destroy_def emit_emits notifyPlayersChange_emits Let_def split: option.split)

lemma destroy_idempotent: "destroy ev' (destroy ev s) = destroy ev s"
  using destroy_fields(1) [of ev s] by (simp add: destroy_def [of ev' "destroy ev s"])

lemma after_destroy_guarded:
  assumes "destroyed s"
  shows "connect ev res s = s" and "connectCall ev s = s" and "dispatchAction ev a s = s"
    and "updateAwareness u s = s" and "destroy ev s = s"
  using assms
  by (simp_all add: connect_def connectCall_def dispatchAction_def updateAwareness_def destroy_def)


text \<open>
  Claim C2 evaluated on a destroyed host: \<open>setMeta\<close> still writes the metadata map, so
  that \<open>getMeta\<close> returns the new value, and \<open>updateGameState\<close> still replaces the cached
  snapshot. (\<open>destroy\<close> itself is idempotent, and \<open>connect\<close>, \<open>dispatchAction\<close> and
  \<open>updateAwareness\<close> return at once on a destroyed provider: the two lemmas above.)
\<close>

theorem write_after_destroy:
  "destroyed (destroy env0 host0)
   \<and> getMeta ''note'' (destroy env0 host0) = None
   \<and> getMeta ''note'' (setMeta ''note'' (JStr ''x'') (destroy env0 host0)) = Some (JStr ''x'')
   \<and> initialGameState (destroy env0 host0) = JUndefined
   \<and> initialGameState (updateGameState (JObj 1) (destroy env0 host0)) = JObj 1"
  by (simp add: destroy_fields getMeta_def setMeta_def docChange_def opsObserver_eq
      docUpdateHandler_emits Let_def updateGameState_def host0_def AList.update_conv')

end
